theory Spec2Isabelle
  imports Complex_Main
begin

section \<open>Values shared by the modules\<close>

text \<open>
  The dashboard is written in JavaScript. Numeric quantities (score, uptime, severity,
  weights) are modelled as exact rationals, wall-clock instants (\<open>Date.now()\<close>) as
  integers of milliseconds. A field that user input or JSON may fill with either a number
  or a string is a \<open>jsval\<close>; \<open>JNumber\<close> stands for an integral number that prints
  as its plain decimal digits.
\<close>

datatype jsval = JUndefined | JNumber int | JString string

text \<open>JavaScript truthiness of such a value, and of an optional string.\<close>

fun truthy :: "jsval \<Rightarrow> bool" where
  "truthy JUndefined = False"
| "truthy (JNumber n) = (n \<noteq> 0)"
| "truthy (JString s) = (s \<noteq> [])"

fun truthyStr :: "string option \<Rightarrow> bool" where
  "truthyStr None = False"
| "truthyStr (Some s) = (s \<noteq> [])"

subsection \<open>\<open>parseInt\<close> with no radix argument\<close>

definition isWhite :: "char \<Rightarrow> bool" where
  "isWhite c = (c \<in> set [CHR '' '', CHR 0x09, CHR 0x0A, CHR 0x0B, CHR 0x0C, CHR 0x0D])"

definition digitVal :: "char \<Rightarrow> nat option" where
  "digitVal c =
     (let n = (of_char c :: nat) in
      if 48 \<le> n \<and> n \<le> 57 then Some (n - 48)
      else if 97 \<le> n \<and> n \<le> 122 then Some (n - 87)
      else if 65 \<le> n \<and> n \<le> 90 then Some (n - 55)
      else None)"

definition isDigitIn :: "nat \<Rightarrow> char \<Rightarrow> bool" where
  "isDigitIn radix c = (case digitVal c of None \<Rightarrow> False | Some d \<Rightarrow> d < radix)"

definition digitsValue :: "nat \<Rightarrow> string \<Rightarrow> nat" where
  "digitsValue radix ds = foldl (\<lambda>a c. a * radix + (case digitVal c of None \<Rightarrow> 0 | Some d \<Rightarrow> d)) 0 ds"

text \<open>
  Leading white space is skipped, then an optional sign, then an optional \<open>0x\<close> prefix
  selecting radix 16; the longest run of digits is read and anything after it ignored.
  \<open>None\<close> is \<open>NaN\<close>.
\<close>

definition parseIntStr :: "string \<Rightarrow> int option" where
  "parseIntStr s =
     (let t = dropWhile isWhite s;
          neg = (t \<noteq> [] \<and> hd t = CHR ''-'');
          u = (if t \<noteq> [] \<and> (hd t = CHR ''-'' \<or> hd t = CHR ''+'') then tl t else t);
          hex = (take 2 u = ''0x'' \<or> take 2 u = ''0X'');
          radix = (if hex then 16 else 10);
          v = (if hex then drop 2 u else u);
          ds = takeWhile (isDigitIn radix) v
      in if ds = [] then None
         else Some ((if neg then - 1 else 1) * int (digitsValue radix ds)))"

fun parseInt :: "jsval \<Rightarrow> int option" where
  "parseInt JUndefined = None"
| "parseInt (JNumber n) = Some n"
| "parseInt (JString s) = parseIntStr s"

text \<open>Comparisons of two \<open>parseInt\<close> results: any comparison with \<open>NaN\<close> is false.\<close>

fun numGreater :: "int option \<Rightarrow> int option \<Rightarrow> bool" where
  "numGreater (Some a) (Some b) = (a > b)"
| "numGreater _ _ = False"

fun numGreaterEq :: "int option \<Rightarrow> int option \<Rightarrow> bool" where
  "numGreaterEq (Some a) (Some b) = (a \<ge> b)"
| "numGreaterEq _ _ = False"

subsection \<open>String helpers\<close>

text \<open>\<open>String.prototype.includes\<close>: the needle occurs at some position of the string.\<close>

fun strIncludes :: "string \<Rightarrow> string \<Rightarrow> bool" where
  "strIncludes [] k = (k = [])"
| "strIncludes (c # cs) k = (take (length k) (c # cs) = k \<or> strIncludes cs k)"

text \<open>An absent argument of \<open>includes\<close> is searched for as the text \<open>undefined\<close>.\<close>

fun needle :: "string option \<Rightarrow> string" where
  "needle None = ''undefined''"
| "needle (Some k) = k"

text \<open>\<open>s && s.includes(k)\<close> on an optional string \<open>s\<close>.\<close>

fun presentIncludes :: "string option \<Rightarrow> string option \<Rightarrow> bool" where
  "presentIncludes None k = False"
| "presentIncludes (Some d) k = (d \<noteq> [] \<and> strIncludes d (needle k))"

definition trim :: "string \<Rightarrow> string" where
  "trim s = rev (dropWhile isWhite (rev (dropWhile isWhite s)))"

subsection \<open>Numbers and values that stored JSON can bring in\<close>

text \<open>
  A JavaScript number: a finite value (an exact rational here), an infinity, or \<open>NaN\<close>.
\<close>

datatype jsnum = NaN | NegInf | Finite rat | PosInf

text \<open>Adding a finite amount, and the comparisons \<open>x < c\<close> and \<open>x >= c\<close> with a finite \<open>c\<close>.\<close>

fun addNum :: "jsnum \<Rightarrow> rat \<Rightarrow> jsnum" where
  "addNum (Finite r) d = Finite (r + d)"
| "addNum x d = x"

fun numBelow :: "jsnum \<Rightarrow> rat \<Rightarrow> bool" where
  "numBelow (Finite r) c = (r < c)"
| "numBelow NegInf c = True"
| "numBelow x c = False"

fun numAtLeast :: "jsnum \<Rightarrow> rat \<Rightarrow> bool" where
  "numAtLeast (Finite r) c = (r \<ge> c)"
| "numAtLeast PosInf c = True"
| "numAtLeast x c = False"

text \<open>
  A value as \<open>JSON.parse\<close> can yield it, or a number computed later. An array or object is
  kept as \<open>VCompound\<close> with the text that \<open>String(value)\<close> gives for it, which is all
  that arithmetic sees of it.
\<close>

datatype jsValue = VNull | VBool bool | VNumber jsnum | VString string | VCompound string

text \<open>
  The numeric reading of a string (\<open>Number(s)\<close>): white space around it is dropped, the
  empty string reads 0, then a radix literal without sign, \<open>Infinity\<close> with an optional
  sign, or a signed decimal literal with optional fraction and exponent; anything else is
  \<open>NaN\<close>.
\<close>

definition allDigitsIn :: "nat \<Rightarrow> string \<Rightarrow> bool" where
  "allDigitsIn radix ds = (ds \<noteq> [] \<and> list_all (isDigitIn radix) ds)"

definition radixLiteral :: "string \<Rightarrow> jsnum option" where
  "radixLiteral t =
     (let radix = (if take 2 t = ''0x'' \<or> take 2 t = ''0X'' then 16
                   else if take 2 t = ''0o'' \<or> take 2 t = ''0O'' then 8
                   else if take 2 t = ''0b'' \<or> take 2 t = ''0B'' then 2
                   else 0)
      in if radix = 0 then None
         else if allDigitsIn radix (drop 2 t)
           then Some (Finite (of_nat (digitsValue radix (drop 2 t))))
         else Some NaN)"

definition exponentPart :: "string \<Rightarrow> int option" where
  "exponentPart r =
     (if r = [] then Some 0
      else if hd r = CHR ''e'' \<or> hd r = CHR ''E''
        then (let r1 = tl r;
                  neg = (r1 \<noteq> [] \<and> hd r1 = CHR ''-'');
                  ds = (if r1 \<noteq> [] \<and> (hd r1 = CHR ''-'' \<or> hd r1 = CHR ''+'') then tl r1 else r1)
              in if allDigitsIn 10 ds
                 then Some ((if neg then - 1 else 1) * int (digitsValue 10 ds))
                 else None)
      else None)"

definition unsignedDecimal :: "string \<Rightarrow> rat option" where
  "unsignedDecimal u =
     (let a = takeWhile (isDigitIn 10) u;
          r1 = dropWhile (isDigitIn 10) u;
          dot = (r1 \<noteq> [] \<and> hd r1 = CHR ''.'');
          b = (if dot then takeWhile (isDigitIn 10) (tl r1) else []);
          r2 = (if dot then dropWhile (isDigitIn 10) (tl r1) else r1)
      in if a = [] \<and> b = [] then None
         else (case exponentPart r2 of
                 None \<Rightarrow> None
               | Some ex \<Rightarrow>
                   Some ((of_nat (digitsValue 10 a) + of_nat (digitsValue 10 b) / 10 ^ length b)
                         * (if ex \<ge> 0 then 10 ^ nat ex else 1 / 10 ^ nat (- ex)))))"

definition stringToNumber :: "string \<Rightarrow> jsnum" where
  "stringToNumber s =
     (let t = trim s
      in if t = [] then Finite 0
         else (case radixLiteral t of
                 Some n \<Rightarrow> n
               | None \<Rightarrow>
                   (let neg = (hd t = CHR ''-'');
                        u = (if hd t = CHR ''-'' \<or> hd t = CHR ''+'' then tl t else t)
                    in if u = ''Infinity'' then (if neg then NegInf else PosInf)
                       else (case unsignedDecimal u of
                               None \<Rightarrow> NaN
                             | Some r \<Rightarrow> Finite (if neg then - r else r)))))"

text \<open>The numeric reading of a value, as the operand of \<open>-\<close>.\<close>

fun toNumber :: "jsValue \<Rightarrow> jsnum" where
  "toNumber VNull = Finite 0"
| "toNumber (VBool b) = Finite (if b then 1 else 0)"
| "toNumber (VNumber n) = n"
| "toNumber (VString s) = stringToNumber s"
| "toNumber (VCompound s) = stringToNumber s"

text \<open>What \<open>JSON.stringify\<close> followed by \<open>JSON.parse\<close> makes of a value.\<close>

fun throughJson :: "jsValue \<Rightarrow> jsValue" where
  "throughJson (VNumber (Finite r)) = VNumber (Finite r)"
| "throughJson (VNumber n) = VNull"
| "throughJson v = v"

section \<open>Events and rules\<close>

text \<open>
  An event as \<open>eventGenerator.generateEvent\<close> builds it; only the fields the simulation
  core reads are kept. \<open>timestamp\<close> is the creation time as a locale time string.
\<close>

record event =
  timestamp :: string
  type :: "string option"
  category :: string
  severity :: rat
  isNoise :: bool
  remediation :: "string option"
  ip :: "string option"
  count :: jsval
  volume :: jsval
  process :: "string option"
  domain :: "string option"
  code :: jsval
  resource :: "string option"
  service :: "string option"

text \<open>A rule as \<open>uiController.getRuleFromForm\<close> builds it: parameters are form strings.\<close>

record rule =
  conditionType :: "string option"
  combinator :: "string option"
  threshold :: jsval
  processName :: "string option"
  domainKeyword :: "string option"
  errorCodeThreshold :: jsval
  resourceKeyword :: "string option"
  serviceName :: "string option"

text \<open>An event and a rule with every field absent, from which examples are built.\<close>

definition blankEvent :: event where
  "blankEvent =
     \<lparr>timestamp = [], type = None, category = [], severity = 0, isNoise = False,
      remediation = None, ip = None, count = JUndefined, volume = JUndefined,
      process = None, domain = None, code = JUndefined, resource = None, service = None\<rparr>"

definition blankRule :: rule where
  "blankRule =
     \<lparr>conditionType = None, combinator = None, threshold = JUndefined, processName = None,
      domainKeyword = None, errorCodeThreshold = JUndefined, resourceKeyword = None,
      serviceName = None\<rparr>"

section \<open>Rule engine (ruleEngine.js)\<close>

text \<open>\<open>validateRule\<close>; the result is the truthiness of what the source returns.\<close>

definition nonBlank :: "string option \<Rightarrow> bool" where
  "nonBlank p = (case p of None \<Rightarrow> False | Some s \<Rightarrow> s \<noteq> [] \<and> length (trim s) > 0)"

definition validateRule :: "rule option \<Rightarrow> bool" where
  "validateRule ro =
     (case ro of
        None \<Rightarrow> False
      | Some r \<Rightarrow>
          if \<not> truthyStr (conditionType r) then False
          else if conditionType r = Some ''login_fail'' \<or> conditionType r = Some ''traffic_spike''
            then truthy (threshold r) \<and> parseInt (threshold r) \<noteq> None
          else if conditionType r = Some ''process_spawn'' then nonBlank (processName r)
          else if conditionType r = Some ''dns_query'' then nonBlank (domainKeyword r)
          else if conditionType r = Some ''http_error''
            then truthy (errorCodeThreshold r)
               \<and> parseInt (errorCodeThreshold r) \<noteq> None
               \<and> numGreaterEq (parseInt (errorCodeThreshold r)) (Some 100)
               \<and> numGreaterEq (Some 599) (parseInt (errorCodeThreshold r))
          else if conditionType r = Some ''unauthorized_access'' then nonBlank (resourceKeyword r)
          else if conditionType r = Some ''service_failure'' then nonBlank (serviceName r)
          else False)"

text \<open>\<open>evaluateRule\<close>: the \<open>switch\<close> on \<open>rule.conditionType\<close>, case by case.\<close>

definition evaluateRule :: "rule option \<Rightarrow> event option \<Rightarrow> bool" where
  "evaluateRule ro eo =
     (case ro of
        None \<Rightarrow> False
      | Some r \<Rightarrow>
         (case eo of
            None \<Rightarrow> False
          | Some e \<Rightarrow>
              if conditionType r = Some ''login_fail''
                then type e = Some ''login_fail''
                   \<and> numGreater (parseInt (count e)) (parseInt (threshold r))
              else if conditionType r = Some ''traffic_spike''
                then type e = Some ''traffic_spike''
                   \<and> numGreater (parseInt (volume e)) (parseInt (threshold r))
              else if conditionType r = Some ''process_spawn''
                then type e = Some ''process_spawn''
                   \<and> truthyStr (process e) \<and> process e = processName r
              else if conditionType r = Some ''dns_query''
                then type e = Some ''dns_query''
                   \<and> presentIncludes (domain e) (domainKeyword r)
              else if conditionType r = Some ''http_error''
                then type e = Some ''http_error''
                   \<and> numGreaterEq (parseInt (code e)) (parseInt (errorCodeThreshold r))
              else if conditionType r = Some ''unauthorized_access''
                then type e = Some ''unauthorized_access''
                   \<and> presentIncludes (resource e) (resourceKeyword r)
              else if conditionType r = Some ''service_failure''
                then type e = Some ''service_failure'' \<and> service e = serviceName r
              else False))"

text \<open>\<open>checkEventAgainstRules\<close>: every stored rule that matches, in insertion order.\<close>

definition checkEventAgainstRules :: "rule list \<Rightarrow> event \<Rightarrow> rule list" where
  "checkEventAgainstRules rs e = filter (\<lambda>r. evaluateRule (Some r) (Some e)) rs"

section \<open>Game model (gameModel.js)\<close>

text \<open>A level descriptor of the fixed level table; \<open>ordinal\<close> is its \<open>level\<close> field.\<close>

record levelDef =
  ordinal :: int
  name :: string
  description :: string
  eventFrequencyMultiplier :: rat
  noiseEventProbability :: rat
  attackSophistication :: string
  targetScore :: rat

text \<open>The \<open>settings\<close> object; three of its fields are overwritten from the current level.\<close>

record gameSettings =
  settingsFrequencyMultiplier :: rat
  settingsNoiseProbability :: rat
  settingsSophistication :: string
  simulationInterval :: int
  falsePositiveChance :: rat
  escalationTimeout :: int

text \<open>
  An entry of \<open>pendingMaliciousEvents\<close>: the event, the instant it was enqueued (the
  entry's own \<open>timestamp\<close>, from \<open>Date.now()\<close>) and the handled flag.
\<close>

record pendingEntry =
  entryEvent :: event
  enqueuedAt :: int
  handled :: bool

record trafficSample =
  sampleTime :: int
  packetCount :: int

record gameState =
  isRunning :: bool
  level :: jsValue
  score :: rat
  uptime :: rat
  rules :: "rule list"
  levelProgress :: rat
  events :: "event list"
  pendingMaliciousEvents :: "pendingEntry list"
  trafficData :: "trafficSample list"

text \<open>
  What \<open>JSON.parse\<close> yields for the stored item: each allow-listed key may be missing,
  and \<open>otherKeys\<close> holds whatever other keys of its own the stored object carries, with
  their values. The level, on which loading computes, is any value; score, uptime and
  level progress are any numbers and the rules a list of rules, the types with which
  \<open>saveGameState\<close> writes them. A parsed value that is not an object has no keys.
\<close>

record snapshot =
  savedLevel :: "jsValue option"
  savedScore :: "rat option"
  savedUptime :: "rat option"
  savedRules :: "rule list option"
  savedLevelProgress :: "rat option"
  otherKeys :: "(string \<times> jsValue) list"

text \<open>
  The \<open>gameState\<close> item of local storage: missing (or the empty string), unreadable
  (reading it, parsing it or inspecting a parsed \<open>null\<close> throws), or parsed.
\<close>

datatype stored = NoItem | Unreadable | Parsed snapshot

text \<open>What goes over the event bus, topic by topic.\<close>

datatype publication =
    GameStateReset gameState
  | SettingsUpdated gameSettings
  | LevelChanged levelDef
  | GameCompleted
  | GamePaused
  | GameReset
  | ScoreUpdated rat rat
  | EventAdded event
  | EventHandled event
  | EventsEscalated "event list"
  | EscalationStarted event
  | UptimeUpdated rat "string option"
  | GameOver string event
  | RulesTriggered event "rule list"
  | RuleAdded rule
  | NotificationError string

text \<open>
  The model object together with what it acts on: the stored item, whether writing it
  succeeds, the publications made so far (oldest first), and whether the rule engine's and
  the escalation controller's bus subscriptions are in place (\<open>eventBus.reset\<close> drops
  them).
\<close>

record gameModel =
  state :: gameState
  settings :: gameSettings
  currentLevelIndex :: jsnum
  localStorage :: stored
  storageWritable :: bool
  published :: "publication list"
  ruleEngineSubscribed :: bool
  escalationsSubscribed :: bool

definition levels :: "levelDef list" where
  "levels =
     [\<lparr>ordinal = 1, name = ''Level 1: Basic Scan Detection'',
       description = ''Detect basic reconnaissance scans.'',
       eventFrequencyMultiplier = 1/2, noiseEventProbability = 1/10,
       attackSophistication = ''basic'', targetScore = 1000\<rparr>,
      \<lparr>ordinal = 2, name = ''Level 2: Exploit Attempts'',
       description = ''Counter exploit attempts and malware.'',
       eventFrequencyMultiplier = 6/10, noiseEventProbability = 15/100,
       attackSophistication = ''intermediate'', targetScore = 1500\<rparr>,
      \<lparr>ordinal = 3, name = ''Level 3: Data Exfiltration'',
       description = ''Prevent data breaches and advanced threats.'',
       eventFrequencyMultiplier = 7/10, noiseEventProbability = 2/10,
       attackSophistication = ''advanced'', targetScore = 2000\<rparr>]"

definition defaultState :: gameState where
  "defaultState =
     \<lparr>isRunning = False, level = VNumber (Finite 1), score = 0, uptime = 100, rules = [],
      levelProgress = 0, events = [], pendingMaliciousEvents = [], trafficData = []\<rparr>"

definition defaultSettings :: gameSettings where
  "defaultSettings =
     \<lparr>settingsFrequencyMultiplier = 1, settingsNoiseProbability = 1/10,
      settingsSophistication = ''basic'', simulationInterval = 9000,
      falsePositiveChance = 1/10, escalationTimeout = 45000\<rparr>"

definition publish :: "publication \<Rightarrow> gameModel \<Rightarrow> gameModel" where
  "publish p m = m\<lparr>published := published m @ [p]\<rparr>"

definition snapshotOf :: "gameState \<Rightarrow> snapshot" where
  "snapshotOf st =
     \<lparr>savedLevel = Some (throughJson (level st)), savedScore = Some (score st),
      savedUptime = Some (uptime st), savedRules = Some (rules st),
      savedLevelProgress = Some (levelProgress st), otherKeys = []\<rparr>"

text \<open>\<open>saveGameState\<close>: a failing write is caught and reported on the bus.\<close>

definition saveGameState :: "gameModel \<Rightarrow> gameModel" where
  "saveGameState m =
     (if storageWritable m then m\<lparr>localStorage := Parsed (snapshotOf (state m))\<rparr>
      else publish
             (NotificationError ''Failed to save game state. Storage may be full or disabled.'')
             m)"

definition resetGameState :: "gameModel \<Rightarrow> gameModel" where
  "resetGameState m =
     (let m1 = saveGameState (m\<lparr>state := defaultState, currentLevelIndex := Finite 0\<rparr>)
      in publish (GameStateReset (state m1)) m1)"

text \<open>The allow-list copy of \<open>loadGameState\<close>: a key that is present overwrites the field.\<close>

definition copyValid :: "snapshot \<Rightarrow> gameState \<Rightarrow> gameState" where
  "copyValid sn st =
     st\<lparr>level := (case savedLevel sn of None \<Rightarrow> level st | Some v \<Rightarrow> v),
        score := (case savedScore sn of None \<Rightarrow> score st | Some v \<Rightarrow> v),
        uptime := (case savedUptime sn of None \<Rightarrow> uptime st | Some v \<Rightarrow> v),
        rules := (case savedRules sn of None \<Rightarrow> rules st | Some v \<Rightarrow> v),
        levelProgress := (case savedLevelProgress sn of None \<Rightarrow> levelProgress st | Some v \<Rightarrow> v)\<rparr>"

text \<open>
  The \<open>catch\<close> branch of \<open>loadGameState\<close>, which is also what its \<open>else\<close> branch does.
\<close>

definition fallBackToFirstLevel :: "gameModel \<Rightarrow> gameModel" where
  "fallBackToFirstLevel m =
     m\<lparr>currentLevelIndex := Finite 0, state := (state m)\<lparr>level := VNumber (Finite 1)\<rparr>\<rparr>"

text \<open>
  \<open>loadGameState\<close>. The copy asks \<open>savedState.hasOwnProperty(prop)\<close>: when the stored
  object has a key of its own named \<open>hasOwnProperty\<close>, that call is a call of a stored
  value and throws before anything is copied, which the \<open>catch\<close> branch takes up.
\<close>

definition loadGameState :: "gameModel \<Rightarrow> gameModel" where
  "loadGameState m =
     (case localStorage m of
        NoItem \<Rightarrow> fallBackToFirstLevel m
      | Unreadable \<Rightarrow> fallBackToFirstLevel m
      | Parsed sn \<Rightarrow>
          if ''hasOwnProperty'' \<in> set (map fst (otherKeys sn)) then fallBackToFirstLevel m
          else
            (let st = copyValid sn (state m); idx = addNum (toNumber (level st)) (- 1)
             in if numBelow idx 0 \<or> numAtLeast idx (of_nat (length levels))
                then m\<lparr>currentLevelIndex := Finite 0, state := st\<lparr>level := VNumber (Finite 1)\<rparr>\<rparr>
                else m\<lparr>currentLevelIndex := idx, state := st\<rparr>))"

text \<open>
  \<open>getCurrentLevel\<close>: \<open>levels[i]\<close> is an entry of the table when \<open>i\<close> is a whole number
  within it and \<open>undefined\<close> otherwise.
\<close>

definition getCurrentLevel :: "gameModel \<Rightarrow> levelDef option" where
  "getCurrentLevel m =
     (case currentLevelIndex m of
        Finite r \<Rightarrow>
          if of_int \<lfloor>r\<rfloor> = r \<and> 0 \<le> r \<and> r < of_nat (length levels)
          then Some (levels ! nat \<lfloor>r\<rfloor>) else None
      | _ \<Rightarrow> None)"

text \<open>\<open>applyLevelSettings\<close>; \<open>None\<close> is the TypeError of reading a field of \<open>undefined\<close>.\<close>

definition applyLevelSettings :: "gameModel \<Rightarrow> gameModel option" where
  "applyLevelSettings m =
     (case getCurrentLevel m of
        None \<Rightarrow> None
      | Some l \<Rightarrow>
          (let st = (settings m)\<lparr>settingsFrequencyMultiplier := eventFrequencyMultiplier l,
                                  settingsNoiseProbability := noiseEventProbability l,
                                  settingsSophistication := attackSophistication l\<rparr>
           in Some (publish (SettingsUpdated st) (m\<lparr>settings := st\<rparr>))))"

text \<open>\<open>init\<close>: load, then apply the level's settings.\<close>

definition init :: "gameModel \<Rightarrow> gameModel option" where
  "init m = applyLevelSettings (loadGameState m)"

text \<open>\<open>startNextLevel\<close>, with the value it returns.\<close>

definition startNextLevel :: "gameModel \<Rightarrow> (bool \<times> gameModel) option" where
  "startNextLevel m =
     (if numBelow (currentLevelIndex m) (of_nat (length levels) - 1)
      then
        (let i = addNum (currentLevelIndex m) 1;
             m1 = saveGameState
                    (m\<lparr>currentLevelIndex := i,
                       state := (state m)\<lparr>level := VNumber (addNum i 1), levelProgress := 0\<rparr>\<rparr>)
         in case applyLevelSettings m1 of
              None \<Rightarrow> None
            | Some m2 \<Rightarrow>
                (case getCurrentLevel m2 of
                   None \<Rightarrow> None
                 | Some l \<Rightarrow> Some (True, publish (LevelChanged l) m2)))
      else
        (case applyLevelSettings (resetGameState m) of
           None \<Rightarrow> None
         | Some m2 \<Rightarrow> Some (False, publish GameCompleted m2)))"

text \<open>\<open>Math.round\<close>: the nearest integer, a tie going up.\<close>

definition mathRound :: "rat \<Rightarrow> rat" where
  "mathRound x = of_int \<lfloor>x + 1/2\<rfloor>"

definition calculateScore :: "rat \<Rightarrow> rat \<Rightarrow> rat \<Rightarrow> rat \<Rightarrow> gameModel \<Rightarrow> rat \<times> gameModel" where
  "calculateScore detectedMaliciousEvents responseSpeed networkUptime falsePositives m =
     (let sc = 0 + detectedMaliciousEvents * 100 + responseSpeed * 5 + networkUptime * 10
                 - falsePositives * 50;
          earnedPoints = max 0 (mathRound sc);
          m1 = saveGameState (m\<lparr>state := (state m)\<lparr>score := score (state m) + earnedPoints\<rparr>\<rparr>)
      in (earnedPoints, publish (ScoreUpdated (score (state m1)) earnedPoints) m1))"

text \<open>\<open>addEvent\<close> at the instant \<open>now\<close>.\<close>

definition addEvent :: "event \<Rightarrow> int \<Rightarrow> gameModel \<Rightarrow> gameModel" where
  "addEvent e now m =
     (let st = state m;
          pend = (if category e = ''malicious''
                  then pendingMaliciousEvents st
                         @ [\<lparr>entryEvent = e, enqueuedAt = now, handled = False\<rparr>]
                  else pendingMaliciousEvents st);
          traffic = trafficData st @ [\<lparr>sampleTime = now, packetCount = 1\<rparr>];
          traffic' = (if length traffic > 100 then tl traffic else traffic)
      in publish (EventAdded e)
           (m\<lparr>state := st\<lparr>events := events st @ [e],
                            pendingMaliciousEvents := pend,
                            trafficData := traffic'\<rparr>\<rparr>))"

text \<open>The composite key by which \<open>markEventAsHandled\<close> looks an entry up.\<close>

definition sameEvent :: "event \<Rightarrow> pendingEntry \<Rightarrow> bool" where
  "sameEvent e p =
     (timestamp (entryEvent p) = timestamp e \<and> type (entryEvent p) = type e
      \<and> ip (entryEvent p) = ip e)"

text \<open>The entry that \<open>find\<close> returned is mutated in place: the first match in the list.\<close>

fun setHandled :: "(pendingEntry \<Rightarrow> bool) \<Rightarrow> pendingEntry list \<Rightarrow> pendingEntry list" where
  "setHandled P [] = []"
| "setHandled P (p # ps) = (if P p then p\<lparr>handled := True\<rparr> # ps else p # setHandled P ps)"

definition markEventAsHandled :: "event \<Rightarrow> int \<Rightarrow> gameModel \<Rightarrow> bool \<times> gameModel" where
  "markEventAsHandled e now m =
     (case find (sameEvent e) (pendingMaliciousEvents (state m)) of
        None \<Rightarrow> (False, m)
      | Some pendingEvent \<Rightarrow>
          (let m1 = m\<lparr>state := (state m)\<lparr>pendingMaliciousEvents :=
                           setHandled (sameEvent e) (pendingMaliciousEvents (state m))\<rparr>\<rparr>;
               responseTime = min 30 (of_int (now - enqueuedAt pendingEvent) / 1000);
               responseSpeed = max 0 (30 - responseTime);
               m2 = snd (calculateScore 1 responseSpeed (uptime (state m1)) 0 m1)
           in (True, publish (EventHandled e) m2)))"

text \<open>
  The filter callback of \<open>checkEscalations\<close>, run over the list: what stays pending, and
  the events pushed to \<open>escalatedEvents\<close>, in order.
\<close>

fun sweep :: "int \<Rightarrow> int \<Rightarrow> pendingEntry list \<Rightarrow> pendingEntry list \<times> event list" where
  "sweep now timeout [] = ([], [])"
| "sweep now timeout (p # ps) =
     (let (kept, escalated) = sweep now timeout ps
      in if handled p then (kept, escalated)
         else if now - enqueuedAt p \<ge> timeout then (kept, entryEvent p # escalated)
         else (p # kept, escalated))"

definition checkEscalations :: "int \<Rightarrow> gameModel \<Rightarrow> event list \<times> gameModel" where
  "checkEscalations now m =
     (let (kept, escalatedEvents) =
            sweep now (escalationTimeout (settings m)) (pendingMaliciousEvents (state m));
          m1 = m\<lparr>state := (state m)\<lparr>pendingMaliciousEvents := kept\<rparr>\<rparr>
      in (escalatedEvents,
          if length escalatedEvents > 0 then publish (EventsEscalated escalatedEvents) m1
          else m1))"

section \<open>Rule engine acting on the model\<close>

text \<open>\<open>handleNewEvent\<close>, the rule engine's handler of \<open>event:added\<close>.\<close>

definition handleNewEvent :: "event \<Rightarrow> int \<Rightarrow> gameModel \<Rightarrow> gameModel" where
  "handleNewEvent e now m =
     (let triggeredRules = checkEventAgainstRules (rules (state m)) e
      in if length triggeredRules > 0
         then publish (RulesTriggered e triggeredRules) (snd (markEventAsHandled e now m))
         else m)"

definition addRule :: "rule \<Rightarrow> gameModel \<Rightarrow> bool \<times> gameModel" where
  "addRule r m =
     (if \<not> validateRule (Some r)
      then (False,
            publish (NotificationError ''Invalid rule configuration. Please check all fields.'') m)
      else (True,
            publish (RuleAdded r)
              (saveGameState (m\<lparr>state := (state m)\<lparr>rules := rules (state m) @ [r]\<rparr>\<rparr>))))"

section \<open>Escalation impact (escalationsController.js)\<close>

record damage =
  uptimeImpact :: rat
  dataBreach :: bool
  financialImpact :: rat
  recoveryTimeHours :: rat

definition calculateSimulatedDamage :: "event \<Rightarrow> damage" where
  "calculateSimulatedDamage e =
     (let baseDamage =
            \<lparr>uptimeImpact = severity e * 2,
             dataBreach = (severity e > 5),
             financialImpact = severity e * 1000,
             recoveryTimeHours = of_int \<lceil>severity e / 2\<rceil>\<rparr>
      in if type e = Some ''traffic_spike''
           then baseDamage\<lparr>uptimeImpact := uptimeImpact baseDamage * (3/2), dataBreach := False\<rparr>
         else if type e = Some ''unauthorized_access'' \<or> type e = Some ''sql_injection''
           then baseDamage\<lparr>dataBreach := True, financialImpact := financialImpact baseDamage * 2\<rparr>
         else if type e = Some ''service_failure''
           then baseDamage\<lparr>uptimeImpact := uptimeImpact baseDamage * 2,
                            recoveryTimeHours := recoveryTimeHours baseDamage * (3/2)\<rparr>
         else baseDamage)"

definition applyEscalationImpact :: "event \<Rightarrow> gameModel \<Rightarrow> gameModel" where
  "applyEscalationImpact e m =
     (let dmg = calculateSimulatedDamage e;
          m1 = m\<lparr>state := (state m)\<lparr>uptime := max 0 (uptime (state m) - uptimeImpact dmg)\<rparr>\<rparr>;
          m2 = publish (UptimeUpdated (uptime (state m1)) (type e)) m1;
          m3 = (if uptime (state m2) \<le> 0 then publish (GameOver ''network_down'' e) m2 else m2)
      in saveGameState m3)"

text \<open>\<open>handleEscalatedEvents\<close>, the controller's handler of \<open>events:escalated\<close>.\<close>

definition handleEscalatedEvents :: "event list \<Rightarrow> gameModel \<Rightarrow> gameModel" where
  "handleEscalatedEvents es m =
     foldl (\<lambda>acc e. applyEscalationImpact e (publish (EscalationStarted e) acc)) m es"

section \<open>Event generator (eventGenerator.js, threats.js)\<close>

text \<open>
  A catalog template, with the fields the weighted choice reads. \<open>level_scaling\<close> is
  \<open>None\<close> when the template has no such object, \<open>Some None\<close> when the object has no
  \<open>frequency\<close>.
\<close>

record template =
  templateType :: string
  templateCategory :: string
  likelihood :: rat
  baseSeverity :: rat
  templateIsNoise :: bool
  level_scaling :: "rat option option"

definition mkTemplate :: "string \<Rightarrow> string \<Rightarrow> rat \<Rightarrow> rat \<Rightarrow> bool \<Rightarrow> template" where
  "mkTemplate ty cat l sev noise =
     \<lparr>templateType = ty, templateCategory = cat, likelihood = l, baseSeverity = sev,
      templateIsNoise = noise, level_scaling = None\<rparr>"

definition possibleEvents :: "template list" where
  "possibleEvents =
     [mkTemplate ''login_fail'' ''malicious'' (6/100) 3 False,
      mkTemplate ''traffic_spike'' ''malicious'' (8/100) 5 False,
      mkTemplate ''process_spawn'' ''malicious'' (6/100) 7 False,
      mkTemplate ''dns_query'' ''malicious'' (7/100) 4 False,
      mkTemplate ''http_error'' ''malicious'' (9/100) 3 False,
      mkTemplate ''unauthorized_access'' ''malicious'' (5/100) 6 False,
      mkTemplate ''service_failure'' ''malicious'' (3/100) 8 False,
      mkTemplate ''sql_injection'' ''malicious'' (4/100) 6 False,
      mkTemplate ''normal_activity'' ''noise'' (3/10) 1 True,
      mkTemplate ''routine_login'' ''noise'' (25/100) 1 True,
      mkTemplate ''scheduled_backup'' ''noise'' (2/10) 1 True,
      mkTemplate ''system_update'' ''noise'' (18/100) 1 True,
      mkTemplate ''false_positive_scan'' ''false_positive'' (1/10) 2 False,
      mkTemplate ''dev_testing'' ''false_positive'' (8/100) 2 False,
      mkTemplate ''maintenance_restart'' ''false_positive'' (7/100) 2 False]"

text \<open>The weight the \<open>map\<close> callback of \<open>chooseEventTemplate\<close> computes for a template.\<close>

definition templateWeight :: "levelDef \<Rightarrow> template \<Rightarrow> rat" where
  "templateWeight levelSettings t =
     (if templateIsNoise t
        then likelihood t
               * (if noiseEventProbability levelSettings \<noteq> 0
                  then noiseEventProbability levelSettings else 1)
      else (case level_scaling t of
              Some (Some f) \<Rightarrow>
                if f \<noteq> 0 then likelihood t * (eventFrequencyMultiplier levelSettings * f)
                else likelihood t * eventFrequencyMultiplier levelSettings
            | _ \<Rightarrow> likelihood t * eventFrequencyMultiplier levelSettings))"

text \<open>The selection loop: \<open>weightSum\<close> is the running sum before the current template.\<close>

fun walk :: "rat \<Rightarrow> rat \<Rightarrow> (template \<times> rat) list \<Rightarrow> template option" where
  "walk randomNum weightSum [] = None"
| "walk randomNum weightSum ((t, w) # rest) =
     (if randomNum \<le> weightSum + w then Some t else walk randomNum (weightSum + w) rest)"

text \<open>
  \<open>chooseEventTemplate\<close> over a catalog, with \<open>rnd\<close> the value of \<open>Math.random()\<close>.
  \<open>None\<close> is the \<open>undefined\<close> read from an empty catalog.
\<close>

definition chooseEventTemplate :: "template list \<Rightarrow> levelDef \<Rightarrow> rat \<Rightarrow> template option" where
  "chooseEventTemplate catalog levelSettings rnd =
     (let weightedTemplates = map (\<lambda>t. (t, templateWeight levelSettings t)) catalog;
          totalWeight = foldl (\<lambda>sum wt. sum + snd wt) 0 weightedTemplates;
          randomNum = rnd * totalWeight
      in case walk randomNum 0 weightedTemplates of
           Some t \<Rightarrow> Some t
         | None \<Rightarrow> (case catalog of [] \<Rightarrow> None | t # _ \<Rightarrow> Some t))"

text \<open>
  The weighting as the specification words it: the noise probability as it stands, and the
  declared scaling frequency as it stands.
\<close>

definition specifiedWeight :: "levelDef \<Rightarrow> template \<Rightarrow> rat" where
  "specifiedWeight levelSettings t =
     likelihood t
       * (if templateIsNoise t then noiseEventProbability levelSettings
          else (case level_scaling t of
                  Some (Some f) \<Rightarrow> eventFrequencyMultiplier levelSettings * f
                | _ \<Rightarrow> eventFrequencyMultiplier levelSettings))"

text \<open>The choice that this weighting would make, by the same selection loop.\<close>

definition specifiedChoice :: "template list \<Rightarrow> levelDef \<Rightarrow> rat \<Rightarrow> template option" where
  "specifiedChoice catalog levelSettings rnd =
     (let weightedTemplates = map (\<lambda>t. (t, specifiedWeight levelSettings t)) catalog;
          totalWeight = foldl (\<lambda>sum wt. sum + snd wt) 0 weightedTemplates;
          randomNum = rnd * totalWeight
      in case walk randomNum 0 weightedTemplates of
           Some t \<Rightarrow> Some t
         | None \<Rightarrow> (case catalog of [] \<Rightarrow> None | t # _ \<Rightarrow> Some t))"

section \<open>The simulation as a sequence of commands (gameController.js)\<close>

text \<open>
  What drives the model: a generator tick adding an event (with the instants at which it is
  enqueued and at which a triggered rule marks it), a player action marking an event, an
  escalation sweep, a game reset, advancing a level, saving a rule. Bus handlers run
  inside the publishing call, so each command includes the handlers subscribed then.
  Starting and pausing only flip \<open>isRunning\<close> and the timers and are left out.
\<close>

datatype command =
    Tick event int int
  | MarkHandled event int
  | Sweep int
  | ResetGame
  | NextLevel
  | SaveRule rule

fun perform :: "command \<Rightarrow> gameModel \<Rightarrow> gameModel option" where
  "perform (Tick e enq now) m =
     (let m1 = addEvent e enq m
      in Some (if ruleEngineSubscribed m1 then handleNewEvent e now m1 else m1))"
| "perform (MarkHandled e now) m = Some (snd (markEventAsHandled e now m))"
| "perform (Sweep now) m =
     (let (escalated, m1) = checkEscalations now m
      in Some (if length escalated > 0 \<and> escalationsSubscribed m1
               then handleEscalatedEvents escalated m1 else m1))"
| "perform ResetGame m =
     (let m1 = publish GamePaused (m\<lparr>state := (state m)\<lparr>isRunning := False\<rparr>\<rparr>)
      in Some (publish GameReset
                 ((resetGameState m1)\<lparr>ruleEngineSubscribed := False,
                                      escalationsSubscribed := False\<rparr>)))"
| "perform NextLevel m = map_option snd (startNextLevel m)"
| "perform (SaveRule r) m = Some (snd (addRule r m))"

fun run :: "command list \<Rightarrow> gameModel \<Rightarrow> gameModel option" where
  "run [] m = Some m"
| "run (c # cs) m = (case perform c m of None \<Rightarrow> None | Some m' \<Rightarrow> run cs m')"

text \<open>
  The model at process start, given the stored item and whether storage can be written.
  The level index is not set before \<open>loadGameState\<close> sets it; it stands at 0 until then.
\<close>

definition startModel :: "stored \<Rightarrow> bool \<Rightarrow> gameModel" where
  "startModel item writable =
     \<lparr>state = defaultState, settings = defaultSettings, currentLevelIndex = Finite 0,
      localStorage = item, storageWritable = writable, published = [],
      ruleEngineSubscribed = True, escalationsSubscribed = True\<rparr>"

definition boot :: "stored \<Rightarrow> bool \<Rightarrow> gameModel option" where
  "boot item writable = init (startModel item writable)"

section \<open>Reading the publication log\<close>

text \<open>What a call published: the log of the model after it, less the log before it.\<close>

definition newPublications :: "gameModel \<Rightarrow> gameModel \<Rightarrow> publication list" where
  "newPublications m m' = drop (length (published m)) (published m')"

text \<open>Some publication satisfying \<open>P\<close> occurs earlier in the log than one satisfying \<open>Q\<close>.\<close>

fun firedBefore ::
  "(publication \<Rightarrow> bool) \<Rightarrow> (publication \<Rightarrow> bool) \<Rightarrow> publication list \<Rightarrow> bool" where
  "firedBefore P Q [] = False"
| "firedBefore P Q (x # xs) = ((P x \<and> list_ex Q xs) \<or> firedBefore P Q xs)"

fun isCompleted :: "publication \<Rightarrow> bool" where
  "isCompleted GameCompleted = True"
| "isCompleted _ = False"

fun isResetEvent :: "publication \<Rightarrow> bool" where
  "isResetEvent (GameStateReset _) = True"
| "isResetEvent GameReset = True"
| "isResetEvent _ = False"

fun isUptimeUpdated :: "publication \<Rightarrow> bool" where
  "isUptimeUpdated (UptimeUpdated _ _) = True"
| "isUptimeUpdated _ = False"

fun isGameOver :: "publication \<Rightarrow> bool" where
  "isGameOver (GameOver _ _) = True"
| "isGameOver _ = False"

fun isEventHandled :: "publication \<Rightarrow> bool" where
  "isEventHandled (EventHandled _) = True"
| "isEventHandled _ = False"

text \<open>
  From \<open>ps\<close> to \<open>ps'\<close>, the first entry that has the key of \<open>e\<close> got its handled flag
  set and nothing else changed; with no such entry, nothing changed.
\<close>

definition marksFirst :: "event \<Rightarrow> pendingEntry list \<Rightarrow> pendingEntry list \<Rightarrow> bool" where
  "marksFirst e ps ps' =
     (if list_ex (sameEvent e) ps
      then (\<exists>i<length ps. sameEvent e (ps ! i) \<and> (\<forall>j<i. \<not> sameEvent e (ps ! j))
              \<and> ps' = ps[i := (ps ! i)\<lparr>handled := True\<rparr>])
      else ps' = ps)"

text \<open>What identifies a pending entry while its handled flag changes.\<close>

definition entryKey :: "pendingEntry \<Rightarrow> event \<times> int" where
  "entryKey p = (entryEvent p, enqueuedAt p)"

text \<open>
  Every pending entry wraps a malicious event of the event log, and the level index points
  into the level table.
\<close>

definition pendingWellFormed :: "gameModel \<Rightarrow> bool" where
  "pendingWellFormed m =
     ((\<forall>p \<in> set (pendingMaliciousEvents (state m)).
         category (entryEvent p) = ''malicious'' \<and> entryEvent p \<in> set (events (state m)))
      \<and> (\<exists>k. currentLevelIndex m = Finite (of_int k) \<and> 0 \<le> k \<and> k < int (length levels)))"

section \<open>Sample data\<close>

text \<open>A malicious event of a given type, creation time and severity.\<close>

definition maliciousEvent :: "string \<Rightarrow> string \<Rightarrow> rat \<Rightarrow> event" where
  "maliciousEvent ty ts sev =
     blankEvent\<lparr>timestamp := ts, type := Some ty, category := ''malicious'', severity := sev,
                ip := Some ''192.168.0.1''\<rparr>"

text \<open>A model in the middle of a session, at level 2.\<close>

definition midSession :: gameModel where
  "midSession =
     (startModel NoItem True)
       \<lparr>state := defaultState
           \<lparr>level := VNumber (Finite 2), score := 1234, uptime := 175/2,
            rules := [blankRule\<lparr>conditionType := Some ''login_fail'', threshold := JString ''5''\<rparr>],
            levelProgress := 0,
            events := [maliciousEvent ''login_fail'' ''10:00:00'' 3]\<rparr>,
        currentLevelIndex := Finite 1\<rparr>"

text \<open>The model right after \<open>init\<close> in a session with nothing stored.\<close>

definition bootedModel :: gameModel where
  "bootedModel =
     publish (SettingsUpdated (defaultSettings\<lparr>settingsFrequencyMultiplier := 1/2\<rparr>))
       ((startModel NoItem True)\<lparr>settings := defaultSettings\<lparr>settingsFrequencyMultiplier := 1/2\<rparr>\<rparr>)"

text \<open>The stored item of a session with progress at the last level.\<close>

definition lastLevelItem :: stored where
  "lastLevelItem =
     Parsed \<lparr>savedLevel = Some (VNumber (Finite 3)), savedScore = Some 2500, savedUptime = Some 90,
             savedRules = Some [], savedLevelProgress = Some 0, otherKeys = []\<rparr>"


section \<open>Auxiliary facts\<close>

lemmas parse_defs = parseIntStr_def isWhite_def isDigitIn_def digitVal_def digitsValue_def

lemmas sample_defs = blankRule_def blankEvent_def maliciousEvent_def

lemma strIncludes_substring: "strIncludes d k \<longleftrightarrow> (\<exists>ps ss. d = ps @ k @ ss)"
proof (induction d)
  case Nil
  then show ?case by auto
next
  case (Cons c cs)
  show ?case
  proof
    assume "strIncludes (c # cs) k"
    then consider "take (length k) (c # cs) = k" | "strIncludes cs k" by auto
    then show "\<exists>ps ss. c # cs = ps @ k @ ss"
    proof cases
      case 1
      then have "c # cs = [] @ k @ drop (length k) (c # cs)"
        by (metis append_Nil append_take_drop_id)
      then show ?thesis by blast
    next
      case 2
      with Cons.IH obtain ps ss where "cs = ps @ k @ ss" by blast
      then have "c # cs = (c # ps) @ k @ ss" by simp
      then show ?thesis by blast
    qed
  next
    assume "\<exists>ps ss. c # cs = ps @ k @ ss"
    then obtain ps ss where eq: "c # cs = ps @ k @ ss" by blast
    show "strIncludes (c # cs) k"
    proof (cases ps)
      case Nil
      with eq have "take (length k) (c # cs) = k" by simp
      then show ?thesis by simp
    next
      case (Cons p ps')
      with eq have "cs = ps' @ k @ ss" by simp
      with Cons.IH have "strIncludes cs k" by blast
      then show ?thesis by simp
    qed
  qed
qed

lemma nonBlank_Some: "nonBlank p \<Longrightarrow> \<exists>s. p = Some s \<and> s \<noteq> []"
  by (cases p) (auto simp: nonBlank_def)

lemma presentIncludes_nonempty:
  assumes "k \<noteq> []"
  shows "presentIncludes x (Some k) \<longleftrightarrow> (\<exists>d ps ss. x = Some d \<and> d = ps @ k @ ss)"
  using assms by (cases x) (auto simp: strIncludes_substring)

lemma numGreater_iff: "numGreater x (Some t) \<longleftrightarrow> (\<exists>c. x = Some c \<and> c > t)"
  by (cases x) auto

lemma numGreaterEq_iff: "numGreaterEq x (Some t) \<longleftrightarrow> (\<exists>c. x = Some c \<and> c \<ge> t)"
  by (cases x) auto

lemma sweep_kept:
  "fst (sweep now t ps) = filter (\<lambda>p. \<not> handled p \<and> now - enqueuedAt p < t) ps"
  by (induction ps) (auto simp: case_prod_beta Let_def)

lemma sweep_escalated:
  "snd (sweep now t ps) = map entryEvent (filter (\<lambda>p. \<not> handled p \<and> now - enqueuedAt p \<ge> t) ps)"
  by (induction ps) (auto simp: case_prod_beta Let_def)

lemma checkEscalations_pending:
  "pendingMaliciousEvents (state (snd (checkEscalations now m)))
     = filter (\<lambda>p. \<not> handled p \<and> now - enqueuedAt p < escalationTimeout (settings m))
         (pendingMaliciousEvents (state m))"
  by (simp add: checkEscalations_def case_prod_beta Let_def publish_def sweep_kept)

lemma checkEscalations_result:
  "fst (checkEscalations now m)
     = map entryEvent
         (filter (\<lambda>p. \<not> handled p \<and> now - enqueuedAt p \<ge> escalationTimeout (settings m))
            (pendingMaliciousEvents (state m)))"
  by (simp add: checkEscalations_def case_prod_beta Let_def sweep_escalated)

lemma checkEscalations_published:
  "published (snd (checkEscalations now m))
     = published m @ (if fst (checkEscalations now m) = [] then []
                      else [EventsEscalated (fst (checkEscalations now m))])"
  by (simp add: checkEscalations_def case_prod_beta Let_def publish_def)

lemma checkEscalations_settings:
  "settings (snd (checkEscalations now m)) = settings m"
  by (simp add: checkEscalations_def case_prod_beta Let_def publish_def)

lemma floor_numeral_div_rat:
  "\<lfloor>(numeral a / numeral b :: rat)\<rfloor> = numeral a div numeral b"
  by (metis floor_divide_of_int_eq of_int_numeral)

lemma mathRound_nearest: "\<bar>mathRound x - x\<bar> \<le> 1/2"
  unfolding mathRound_def by linarith

lemma mathRound_clamp: "max 0 (mathRound x) = mathRound (max 0 x)"
proof (cases "x \<ge> 0")
  case True
  then have "0 \<le> \<lfloor>x + 1/2\<rfloor>" by simp
  with True show ?thesis by (simp add: mathRound_def max_def)
next
  case False
  then have neg: "x < 0" by simp
  then have "\<lfloor>x + 1/2\<rfloor> \<le> 0" by linarith
  then have "mathRound x \<le> 0" by (simp add: mathRound_def)
  then have l: "max 0 (mathRound x) = 0" by (simp add: max_def)
  have "\<lfloor>(0::rat) + 1/2\<rfloor> = 0" by linarith
  then have "mathRound 0 = 0" by (simp add: mathRound_def)
  with neg have r: "mathRound (max 0 x) = 0" by (simp add: max_def)
  from l r show ?thesis by simp
qed

lemmas eval_defs = addEvent_def handleNewEvent_def checkEventAgainstRules_def
  markEventAsHandled_def sameEvent_def calculateScore_def mathRound_def saveGameState_def
  publish_def snapshotOf_def resetGameState_def startModel_def defaultState_def
  defaultSettings_def maliciousEvent_def blankEvent_def Let_def floor_numeral_div_rat

lemma applyEscalationImpact_published:
  "published (applyEscalationImpact e m)
     = published m
       @ [UptimeUpdated (max 0 (uptime (state m) - uptimeImpact (calculateSimulatedDamage e))) (type e)]
       @ (if max 0 (uptime (state m) - uptimeImpact (calculateSimulatedDamage e)) \<le> 0
          then [GameOver ''network_down'' e] else [])
       @ (if storageWritable m then []
          else [NotificationError ''Failed to save game state. Storage may be full or disabled.''])"
  by (simp add: applyEscalationImpact_def Let_def publish_def saveGameState_def)

lemma applyEscalationImpact_uptime:
  "uptime (state (applyEscalationImpact e m))
     = max 0 (uptime (state m) - uptimeImpact (calculateSimulatedDamage e))"
  by (simp add: applyEscalationImpact_def Let_def publish_def saveGameState_def)

lemma newPublications_append: "published m' = published m @ xs \<Longrightarrow> newPublications m m' = xs"
  by (simp add: newPublications_def)

lemma applyEscalationImpact_updates:
  "length (filter isUptimeUpdated (published (applyEscalationImpact e m)))
     = Suc (length (filter isUptimeUpdated (published m)))"
  by (simp add: applyEscalationImpact_published)

lemma handleEscalatedEvents_updates:
  "length (filter isUptimeUpdated (published (handleEscalatedEvents es m)))
     = length (filter isUptimeUpdated (published m)) + length es"
  unfolding handleEscalatedEvents_def
proof (induction es arbitrary: m)
  case Nil
  then show ?case by simp
next
  case (Cons e es)
  have "length (filter isUptimeUpdated
          (published (applyEscalationImpact e (publish (EscalationStarted e) m))))
        = Suc (length (filter isUptimeUpdated (published m)))"
    by (simp add: applyEscalationImpact_updates) (simp add: publish_def)
  with Cons.IH[of "applyEscalationImpact e (publish (EscalationStarted e) m)"]
  show ?case by simp
qed

lemma loadGameState_lastLevel:
  "currentLevelIndex (loadGameState (startModel lastLevelItem True)) = Finite 2"
  "published (loadGameState (startModel lastLevelItem True)) = []"
  "storageWritable (loadGameState (startModel lastLevelItem True))"
  "score (state (loadGameState (startModel lastLevelItem True))) = 2500"
  "level (state (loadGameState (startModel lastLevelItem True))) = VNumber (Finite 3)"
  by (simp_all add: loadGameState_def startModel_def lastLevelItem_def copyValid_def Let_def
        levels_def defaultState_def)

lemma foldl_weights:
  "foldl (\<lambda>sum wt. sum + snd wt) a (map (\<lambda>t. (t, w t)) ts) = a + sum_list (map w ts)"
  by (induction ts arbitrary: a) (simp_all add: add.assoc)

lemma walk_hit:
  "i < length ts \<Longrightarrow> r \<le> acc + sum_list (map w (take (Suc i) ts))
   \<Longrightarrow> (\<forall>j<i. acc + sum_list (map w (take (Suc j) ts)) < r)
   \<Longrightarrow> walk r acc (map (\<lambda>t. (t, w t)) ts) = Some (ts ! i)"
proof (induction ts arbitrary: acc i)
  case Nil
  then show ?case by simp
next
  case (Cons t ts)
  show ?case
  proof (cases i)
    case 0
    with Cons.prems show ?thesis by simp
  next
    case (Suc k)
    from Cons.prems(3) Suc have first: "acc + w t < r" by force
    have k: "k < length ts" using Cons.prems(1) Suc by simp
    have hit: "r \<le> (acc + w t) + sum_list (map w (take (Suc k) ts))"
      using Cons.prems(2) Suc by (simp add: add.assoc)
    have before: "\<forall>j<k. (acc + w t) + sum_list (map w (take (Suc j) ts)) < r"
    proof (intro allI impI)
      fix j assume "j < k"
      then have "Suc j < i" using Suc by simp
      with Cons.prems(3) have "acc + sum_list (map w (take (Suc (Suc j)) (t # ts))) < r" by blast
      then show "(acc + w t) + sum_list (map w (take (Suc j) ts)) < r" by (simp add: add.assoc)
    qed
    from Cons.IH[OF k hit before] first Suc show ?thesis by simp
  qed
qed

lemma walk_miss:
  "(\<forall>i<length ts. acc + sum_list (map w (take (Suc i) ts)) < r)
   \<Longrightarrow> walk r acc (map (\<lambda>t. (t, w t)) ts) = None"
proof (induction ts arbitrary: acc)
  case Nil
  then show ?case by simp
next
  case (Cons t ts)
  from Cons.prems have first: "acc + w t < r" by force
  have rest: "\<forall>i<length ts. (acc + w t) + sum_list (map w (take (Suc i) ts)) < r"
  proof (intro allI impI)
    fix i assume "i < length ts"
    then have "Suc i < length (t # ts)" by simp
    with Cons.prems have "acc + sum_list (map w (take (Suc (Suc i)) (t # ts))) < r" by blast
    then show "(acc + w t) + sum_list (map w (take (Suc i) ts)) < r" by (simp add: add.assoc)
  qed
  from Cons.IH[OF rest] first show ?case by simp
qed

lemma length_levels: "length levels = 3"
  by (simp add: levels_def)

lemma publish_fields:
  "state (publish p m) = state m" "currentLevelIndex (publish p m) = currentLevelIndex m"
  "settings (publish p m) = settings m"
  "ruleEngineSubscribed (publish p m) = ruleEngineSubscribed m"
  "escalationsSubscribed (publish p m) = escalationsSubscribed m"
  by (simp_all add: publish_def)

lemma saveGameState_fields:
  "state (saveGameState m) = state m" "currentLevelIndex (saveGameState m) = currentLevelIndex m"
  "settings (saveGameState m) = settings m"
  "ruleEngineSubscribed (saveGameState m) = ruleEngineSubscribed m"
  "escalationsSubscribed (saveGameState m) = escalationsSubscribed m"
  by (simp_all add: saveGameState_def publish_def)

lemma calculateScore_fields:
  "pendingMaliciousEvents (state (snd (calculateScore d s u f m))) = pendingMaliciousEvents (state m)"
  "events (state (snd (calculateScore d s u f m))) = events (state m)"
  "currentLevelIndex (snd (calculateScore d s u f m)) = currentLevelIndex m"
  "settings (snd (calculateScore d s u f m)) = settings m"
  by (simp_all add: calculateScore_def Let_def publish_fields saveGameState_fields)

lemma setHandled_keys: "map entryKey (setHandled P ps) = map entryKey ps"
  by (induction ps) (simp_all add: entryKey_def)

lemma keys_events: "map entryKey ps' = map entryKey ps \<Longrightarrow> map entryEvent ps' = map entryEvent ps"
proof -
  assume "map entryKey ps' = map entryKey ps"
  then have "map fst (map entryKey ps') = map fst (map entryKey ps)" by simp
  then show ?thesis by (simp add: entryKey_def comp_def)
qed

lemma markEventAsHandled_fields:
  "map entryKey (pendingMaliciousEvents (state (snd (markEventAsHandled e now m))))
     = map entryKey (pendingMaliciousEvents (state m))"
  "events (state (snd (markEventAsHandled e now m))) = events (state m)"
  "currentLevelIndex (snd (markEventAsHandled e now m)) = currentLevelIndex m"
  "settings (snd (markEventAsHandled e now m)) = settings m"
  by (simp_all add: markEventAsHandled_def Let_def publish_fields calculateScore_fields
        setHandled_keys split: option.splits)

lemma addEvent_fields:
  "pendingMaliciousEvents (state (addEvent e now m))
     = pendingMaliciousEvents (state m)
       @ (if category e = ''malicious''
          then [\<lparr>entryEvent = e, enqueuedAt = now, handled = False\<rparr>] else [])"
  "events (state (addEvent e now m)) = events (state m) @ [e]"
  "currentLevelIndex (addEvent e now m) = currentLevelIndex m"
  "settings (addEvent e now m) = settings m"
  by (simp_all add: addEvent_def Let_def publish_fields)

lemma handleNewEvent_fields:
  "map entryKey (pendingMaliciousEvents (state (handleNewEvent e now m)))
     = map entryKey (pendingMaliciousEvents (state m))"
  "events (state (handleNewEvent e now m)) = events (state m)"
  "currentLevelIndex (handleNewEvent e now m) = currentLevelIndex m"
  "settings (handleNewEvent e now m) = settings m"
  by (simp_all add: handleNewEvent_def Let_def publish_fields markEventAsHandled_fields)

lemma checkEscalations_fields:
  "events (state (snd (checkEscalations now m))) = events (state m)"
  "currentLevelIndex (snd (checkEscalations now m)) = currentLevelIndex m"
  by (simp_all add: checkEscalations_def case_prod_beta Let_def publish_fields)

lemma applyEscalationImpact_fields:
  "pendingMaliciousEvents (state (applyEscalationImpact e m)) = pendingMaliciousEvents (state m)"
  "events (state (applyEscalationImpact e m)) = events (state m)"
  "currentLevelIndex (applyEscalationImpact e m) = currentLevelIndex m"
  by (simp_all add: applyEscalationImpact_def Let_def publish_fields saveGameState_fields)

lemma handleEscalatedEvents_fields:
  "pendingMaliciousEvents (state (handleEscalatedEvents es m)) = pendingMaliciousEvents (state m)
   \<and> events (state (handleEscalatedEvents es m)) = events (state m)
   \<and> currentLevelIndex (handleEscalatedEvents es m) = currentLevelIndex m"
  unfolding handleEscalatedEvents_def
  by (induction es arbitrary: m) (simp_all add: applyEscalationImpact_fields publish_fields)

lemma resetGameState_fields:
  "state (resetGameState m) = defaultState"
  "currentLevelIndex (resetGameState m) = Finite 0"
  by (simp_all add: resetGameState_def Let_def publish_fields saveGameState_fields)

lemma addRule_fields:
  "pendingMaliciousEvents (state (snd (addRule r m))) = pendingMaliciousEvents (state m)"
  "events (state (snd (addRule r m))) = events (state m)"
  "currentLevelIndex (snd (addRule r m)) = currentLevelIndex m"
  by (simp_all add: addRule_def publish_fields saveGameState_fields)

lemma applyLevelSettings_Some:
  "currentLevelIndex m = Finite (of_int k) \<Longrightarrow> 0 \<le> k \<Longrightarrow> k < 3 \<Longrightarrow>
   \<exists>m'. applyLevelSettings m = Some m' \<and> state m' = state m
        \<and> currentLevelIndex m' = currentLevelIndex m"
  by (simp add: applyLevelSettings_def getCurrentLevel_def length_levels Let_def publish_fields)

lemma startNextLevel_cases:
  assumes idx: "currentLevelIndex m = Finite (of_int k)" and k: "0 \<le> k"
  shows "\<exists>m'. startNextLevel m = Some (k < 2, m')
     \<and> (\<exists>k'. currentLevelIndex m' = Finite (of_int k') \<and> 0 \<le> k' \<and> k' < 3)
     \<and> (if k < 2
         then pendingMaliciousEvents (state m') = pendingMaliciousEvents (state m)
            \<and> events (state m') = events (state m)
         else state m' = defaultState)"
proof (cases "k < 2")
  case True
  let ?m1 = "saveGameState
               (m\<lparr>currentLevelIndex := Finite (of_int (k + 1)),
                  state := (state m)\<lparr>level := VNumber (Finite (of_int (k + 1) + 1)),
                                       levelProgress := 0\<rparr>\<rparr>)"
  have i1: "currentLevelIndex ?m1 = Finite (of_int (k + 1))"
    by (simp add: saveGameState_fields)
  from applyLevelSettings_Some[OF i1] k True obtain m2 where
    a: "applyLevelSettings ?m1 = Some m2" and s: "state m2 = state ?m1"
    and i2: "currentLevelIndex m2 = Finite (of_int (k + 1))"
    using i1 by auto
  from i2 k True obtain l where g: "getCurrentLevel m2 = Some l"
    by (simp add: getCurrentLevel_def length_levels)
  have st: "startNextLevel m = Some (True, publish (LevelChanged l) m2)"
    using True idx a g by (simp add: startNextLevel_def length_levels Let_def)
  have "currentLevelIndex (publish (LevelChanged l) m2) = Finite (of_int (k + 1))
      \<and> 0 \<le> k + 1 \<and> k + 1 < 3"
    using i2 k True by (simp add: publish_fields)
  then have ex: "\<exists>k'. currentLevelIndex (publish (LevelChanged l) m2) = Finite (of_int k')
      \<and> 0 \<le> k' \<and> k' < 3"
    by blast
  from st ex s True show ?thesis by (simp add: publish_fields saveGameState_fields)
next
  case False
  let ?r = "resetGameState m"
  have i1: "currentLevelIndex ?r = Finite (of_int 0)" by (simp add: resetGameState_fields)
  from applyLevelSettings_Some[OF i1] obtain m2 where
    a: "applyLevelSettings ?r = Some m2" and s: "state m2 = state ?r"
    and i2: "currentLevelIndex m2 = currentLevelIndex ?r"
    by auto
  have st: "startNextLevel m = Some (False, publish GameCompleted m2)"
    using False idx a by (simp add: startNextLevel_def length_levels)
  have "currentLevelIndex (publish GameCompleted m2) = Finite (of_int 0)"
    using i2 i1 by (simp add: publish_fields)
  then have ex: "\<exists>k'. currentLevelIndex (publish GameCompleted m2) = Finite (of_int k')
      \<and> 0 \<le> k' \<and> k' < 3"
    by (intro exI[of _ 0]) simp
  from st ex s False show ?thesis by (simp add: publish_fields resetGameState_fields)
qed

lemma setHandled_none: "\<forall>p \<in> set ps. \<not> P p \<Longrightarrow> setHandled P ps = ps"
  by (induction ps) simp_all

lemma setHandled_first:
  "\<exists>p \<in> set ps. P p \<Longrightarrow>
   \<exists>i<length ps. P (ps ! i) \<and> (\<forall>j<i. \<not> P (ps ! j))
      \<and> setHandled P ps = ps[i := (ps ! i)\<lparr>handled := True\<rparr>]"
proof (induction ps)
  case Nil
  then show ?case by simp
next
  case (Cons p ps)
  show ?case
  proof (cases "P p")
    case True
    then show ?thesis by (intro exI[of _ 0]) simp
  next
    case False
    with Cons.prems have "\<exists>q \<in> set ps. P q" by simp
    from Cons.IH[OF this] obtain i where i: "i < length ps" "P (ps ! i)"
      "\<forall>j<i. \<not> P (ps ! j)" "setHandled P ps = ps[i := (ps ! i)\<lparr>handled := True\<rparr>]"
      by blast
    have before: "\<forall>j<Suc i. \<not> P ((p # ps) ! j)"
    proof (intro allI impI)
      fix j assume "j < Suc i"
      then show "\<not> P ((p # ps) ! j)" using False i(3) by (cases j) simp_all
    qed
    from i False before show ?thesis by (intro exI[of _ "Suc i"]) simp
  qed
qed

lemma setHandled_marksFirst: "marksFirst e ps (setHandled (sameEvent e) ps)"
proof (cases "list_ex (sameEvent e) ps")
  case True
  then have "\<exists>p \<in> set ps. sameEvent e p" by (simp add: list_ex_iff)
  from setHandled_first[OF this] True show ?thesis by (simp add: marksFirst_def)
next
  case False
  then have "\<forall>p \<in> set ps. \<not> sameEvent e p" by (simp add: list_ex_iff)
  from setHandled_none[OF this] False show ?thesis by (simp add: marksFirst_def)
qed

lemma markEventAsHandled_marks:
  "marksFirst e (pendingMaliciousEvents (state m))
     (pendingMaliciousEvents (state (snd (markEventAsHandled e now m))))"
proof (cases "find (sameEvent e) (pendingMaliciousEvents (state m))")
  case None
  then have "\<not> list_ex (sameEvent e) (pendingMaliciousEvents (state m))"
    by (simp add: find_None_iff list_ex_iff)
  with None show ?thesis by (simp add: markEventAsHandled_def marksFirst_def)
next
  case (Some p)
  then have "pendingMaliciousEvents (state (snd (markEventAsHandled e now m)))
      = setHandled (sameEvent e) (pendingMaliciousEvents (state m))"
    by (simp add: markEventAsHandled_def Let_def publish_fields calculateScore_fields)
  then show ?thesis by (simp add: setHandled_marksFirst)
qed

lemma handleNewEvent_marks:
  "if \<exists>r \<in> set (rules (state m)). evaluateRule (Some r) (Some e)
   then marksFirst e (pendingMaliciousEvents (state m))
          (pendingMaliciousEvents (state (handleNewEvent e now m)))
   else pendingMaliciousEvents (state (handleNewEvent e now m)) = pendingMaliciousEvents (state m)"
proof (cases "\<exists>r \<in> set (rules (state m)). evaluateRule (Some r) (Some e)")
  case True
  then have "checkEventAgainstRules (rules (state m)) e \<noteq> []"
    by (simp add: checkEventAgainstRules_def filter_empty_conv)
  then have "pendingMaliciousEvents (state (handleNewEvent e now m))
      = pendingMaliciousEvents (state (snd (markEventAsHandled e now m)))"
    by (simp add: handleNewEvent_def Let_def publish_fields)
  with True show ?thesis by (simp add: markEventAsHandled_marks)
next
  case False
  then have "checkEventAgainstRules (rules (state m)) e = []"
    by (simp add: checkEventAgainstRules_def filter_empty_conv)
  with False show ?thesis by (simp add: handleNewEvent_def Let_def)
qed

lemma addEvent_rules:
  "rules (state (addEvent e now m)) = rules (state m)"
  "ruleEngineSubscribed (addEvent e now m) = ruleEngineSubscribed m"
  by (simp_all add: addEvent_def Let_def publish_fields)

lemma wellFormed_events:
  "pendingWellFormed m \<longleftrightarrow>
     ((\<forall>e \<in> set (map entryEvent (pendingMaliciousEvents (state m))).
         category e = ''malicious'' \<and> e \<in> set (events (state m)))
      \<and> (\<exists>k. currentLevelIndex m = Finite (of_int k) \<and> 0 \<le> k \<and> k < int (length levels)))"
  by (auto simp: pendingWellFormed_def)

lemma wellFormed_same_keys:
  assumes "pendingWellFormed m"
    and "map entryKey (pendingMaliciousEvents (state m')) = map entryKey (pendingMaliciousEvents (state m))"
    and "events (state m') = events (state m)" and "currentLevelIndex m' = currentLevelIndex m"
  shows "pendingWellFormed m'"
  using assms keys_events[OF assms(2)] unfolding wellFormed_events by simp

lemma wellFormed_addEvent: "pendingWellFormed m \<Longrightarrow> pendingWellFormed (addEvent e now m)"
  by (auto simp: pendingWellFormed_def addEvent_fields)

lemma wellFormed_sweep: "pendingWellFormed m \<Longrightarrow> pendingWellFormed (snd (checkEscalations now m))"
  by (auto simp: pendingWellFormed_def checkEscalations_fields checkEscalations_pending)

lemma wellFormed_escalated:
  "pendingWellFormed m \<Longrightarrow> pendingWellFormed (handleEscalatedEvents es m)"
  by (simp add: pendingWellFormed_def handleEscalatedEvents_fields)

lemma perform_tick:
  assumes wf: "pendingWellFormed m"
  shows "\<exists>m'. perform (Tick e enq now) m = Some m' \<and> pendingWellFormed m'
     \<and> (if ruleEngineSubscribed m
            \<and> (\<exists>r \<in> set (rules (state m)). evaluateRule (Some r) (Some e))
         then marksFirst e
                (pendingMaliciousEvents (state m)
                 @ (if category e = ''malicious''
                    then [\<lparr>entryEvent = e, enqueuedAt = enq, handled = False\<rparr>] else []))
                (pendingMaliciousEvents (state m'))
         else pendingMaliciousEvents (state m')
                = pendingMaliciousEvents (state m)
                  @ (if category e = ''malicious''
                     then [\<lparr>entryEvent = e, enqueuedAt = enq, handled = False\<rparr>] else []))"
proof -
  let ?m1 = "addEvent e enq m"
  let ?m' = "if ruleEngineSubscribed ?m1 then handleNewEvent e now ?m1 else ?m1"
  define ps1 where "ps1 = pendingMaliciousEvents (state m)
                 @ (if category e = ''malicious''
                    then [\<lparr>entryEvent = e, enqueuedAt = enq, handled = False\<rparr>] else [])"
  have e1: "pendingMaliciousEvents (state ?m1) = ps1"
    unfolding ps1_def by (rule addEvent_fields)
  have p: "perform (Tick e enq now) m = Some ?m'" by (simp add: Let_def)
  have k: "map entryKey (pendingMaliciousEvents (state ?m'))
     = map entryKey (pendingMaliciousEvents (state ?m1))"
    by (simp add: handleNewEvent_fields)
  have w: "pendingWellFormed ?m'"
    by (rule wellFormed_same_keys[OF wellFormed_addEvent[OF wf, of e enq] k])
       (simp_all add: handleNewEvent_fields)
  have d: "if ruleEngineSubscribed m
            \<and> (\<exists>r \<in> set (rules (state m)). evaluateRule (Some r) (Some e))
           then marksFirst e ps1 (pendingMaliciousEvents (state ?m'))
           else pendingMaliciousEvents (state ?m') = ps1"
  proof (cases "ruleEngineSubscribed m")
    case True
    then have m': "?m' = handleNewEvent e now ?m1" by (simp add: addEvent_rules)
    from handleNewEvent_marks[of ?m1 e now] True show ?thesis
      unfolding m' e1 by (simp add: addEvent_rules)
  next
    case False
    then have m': "?m' = ?m1" by (simp add: addEvent_rules)
    from False show ?thesis unfolding m' e1 by simp
  qed
  from p w d show ?thesis unfolding ps1_def by blast
qed

lemma perform_pending:
  assumes wf: "pendingWellFormed m"
  shows "\<exists>m'. perform c m = Some m' \<and> pendingWellFormed m'
     \<and> (case c of
          Tick e enq now \<Rightarrow>
            (if ruleEngineSubscribed m
                \<and> (\<exists>r \<in> set (rules (state m)). evaluateRule (Some r) (Some e))
             then marksFirst e
                    (pendingMaliciousEvents (state m)
                     @ (if category e = ''malicious''
                        then [\<lparr>entryEvent = e, enqueuedAt = enq, handled = False\<rparr>] else []))
                    (pendingMaliciousEvents (state m'))
             else pendingMaliciousEvents (state m')
                    = pendingMaliciousEvents (state m)
                      @ (if category e = ''malicious''
                         then [\<lparr>entryEvent = e, enqueuedAt = enq, handled = False\<rparr>] else []))
        | MarkHandled e now \<Rightarrow>
            marksFirst e (pendingMaliciousEvents (state m)) (pendingMaliciousEvents (state m'))
        | Sweep now \<Rightarrow>
            pendingMaliciousEvents (state m')
              = filter (\<lambda>p. \<not> handled p \<and> now - enqueuedAt p < escalationTimeout (settings m))
                  (pendingMaliciousEvents (state m))
        | ResetGame \<Rightarrow> pendingMaliciousEvents (state m') = []
        | NextLevel \<Rightarrow>
            (if numBelow (currentLevelIndex m) (of_nat (length levels) - 1)
             then pendingMaliciousEvents (state m') = pendingMaliciousEvents (state m)
             else pendingMaliciousEvents (state m') = [])
        | SaveRule r \<Rightarrow> pendingMaliciousEvents (state m') = pendingMaliciousEvents (state m))"
proof (cases c)
  case (Tick e enq now)
  with perform_tick[OF wf, of e enq now] show ?thesis by simp
next
  case (MarkHandled e now)
  have "pendingWellFormed (snd (markEventAsHandled e now m))"
    by (rule wellFormed_same_keys[OF wf]) (simp_all add: markEventAsHandled_fields)
  then show ?thesis by (simp add: MarkHandled markEventAsHandled_marks)
next
  case (Sweep now)
  let ?r = "checkEscalations now m"
  let ?m' = "if length (fst ?r) > 0 \<and> escalationsSubscribed (snd ?r)
             then handleEscalatedEvents (fst ?r) (snd ?r) else snd ?r"
  have p: "perform c m = Some ?m'" by (simp add: Sweep case_prod_beta Let_def)
  have w: "pendingWellFormed ?m'"
    using wellFormed_sweep[OF wf, of now] by (simp add: wellFormed_escalated)
  have k: "pendingMaliciousEvents (state ?m') = pendingMaliciousEvents (state (snd ?r))"
    by (simp add: handleEscalatedEvents_fields)
  from p w k show ?thesis by (simp add: Sweep checkEscalations_pending del: perform.simps)
next
  case ResetGame
  let ?m1 = "publish GamePaused (m\<lparr>state := (state m)\<lparr>isRunning := False\<rparr>\<rparr>)"
  let ?m' = "publish GameReset ((resetGameState ?m1)\<lparr>ruleEngineSubscribed := False,
                                      escalationsSubscribed := False\<rparr>)"
  have p: "perform c m = Some ?m'" by (simp add: ResetGame Let_def)
  have s: "state ?m' = defaultState" "currentLevelIndex ?m' = Finite (of_int 0)"
    by (simp_all add: publish_fields resetGameState_fields)
  then have w: "pendingWellFormed ?m'"
    unfolding pendingWellFormed_def by (simp add: defaultState_def length_levels)
  from p w s show ?thesis by (simp add: ResetGame defaultState_def del: perform.simps)
next
  case NextLevel
  from wf obtain k where i: "currentLevelIndex m = Finite (of_int k)" and k: "0 \<le> k"
    by (auto simp: pendingWellFormed_def)
  from startNextLevel_cases[OF i k] obtain m' where
    r: "startNextLevel m = Some (k < 2, m')"
    and b: "\<exists>k'. currentLevelIndex m' = Finite (of_int k') \<and> 0 \<le> k' \<and> k' < 3"
    and c: "if k < 2
         then pendingMaliciousEvents (state m') = pendingMaliciousEvents (state m)
            \<and> events (state m') = events (state m)
         else state m' = defaultState"
    by blast
  have w: "pendingWellFormed m'"
    using wf b c by (auto simp: pendingWellFormed_def length_levels defaultState_def split: if_splits)
  have below: "numBelow (currentLevelIndex m) (of_nat (length levels) - 1) \<longleftrightarrow> k < 2"
    by (simp add: i length_levels)
  from r w c below show ?thesis
    by (auto simp: NextLevel defaultState_def split: if_splits)
next
  case (SaveRule r)
  have "pendingWellFormed (snd (addRule r m))"
    by (rule wellFormed_same_keys[OF wf]) (simp_all add: addRule_fields)
  then show ?thesis by (simp add: SaveRule addRule_fields)
qed

lemma boot_wellFormed: "boot item w = Some m0 \<Longrightarrow> pendingWellFormed m0"
proof -
  assume b: "boot item w = Some m0"
  let ?l = "loadGameState (startModel item w)"
  have s: "pendingMaliciousEvents (state ?l) = []"
    by (simp add: loadGameState_def fallBackToFirstLevel_def startModel_def defaultState_def
          copyValid_def Let_def split: stored.splits)
  from b have a: "applyLevelSettings ?l = Some m0" by (simp add: boot_def init_def)
  then obtain l where g: "getCurrentLevel ?l = Some l"
    by (auto simp: applyLevelSettings_def split: option.splits)
  then obtain r where r: "currentLevelIndex ?l = Finite r" "of_int \<lfloor>r\<rfloor> = r" "0 \<le> r"
      "r < of_nat (length levels)"
    by (auto simp: getCurrentLevel_def split: jsnum.splits if_splits)
  from r(3,4) have bnd: "0 \<le> \<lfloor>r\<rfloor>" "\<lfloor>r\<rfloor> < int (length levels)"
    by (simp_all add: floor_less_iff)
  from r(1,2) have "currentLevelIndex ?l = Finite (of_int \<lfloor>r\<rfloor>)" by metis
  with bnd have i: "\<exists>k. currentLevelIndex ?l = Finite (of_int k) \<and> 0 \<le> k \<and> k < int (length levels)"
    by blast
  from a g have "state m0 = state ?l \<and> currentLevelIndex m0 = currentLevelIndex ?l"
    by (auto simp: applyLevelSettings_def Let_def publish_fields)
  with s i show ?thesis by (simp add: pendingWellFormed_def)
qed

lemma run_wellFormed:
  "pendingWellFormed m \<Longrightarrow> \<exists>m'. run cs m = Some m' \<and> pendingWellFormed m'"
proof (induction cs arbitrary: m)
  case Nil
  then show ?case by simp
next
  case (Cons c cs)
  from perform_pending[OF Cons.prems, of c] obtain m1 where
    "perform c m = Some m1" "pendingWellFormed m1" by blast
  with Cons.IH[of m1] show ?case by simp
qed

lemma boot_fresh: "boot NoItem True = Some bootedModel"
  by (simp add: boot_def init_def loadGameState_def fallBackToFirstLevel_def
        applyLevelSettings_def getCurrentLevel_def levels_def bootedModel_def eval_defs)

text \<open>
  The lookup of \<open>markEventAsHandled\<close> does not depend on the handled flag: a call that
  found the entry finds it again.
\<close>

lemma find_setHandled:
  "find (sameEvent e) (setHandled (sameEvent e) ps)
     = map_option (\<lambda>p. p\<lparr>handled := True\<rparr>) (find (sameEvent e) ps)"
  by (induction ps) (auto simp: sameEvent_def)

lemma markEventAsHandled_pending:
  "pendingMaliciousEvents (state (snd (markEventAsHandled e now m)))
     = (case find (sameEvent e) (pendingMaliciousEvents (state m)) of
          None \<Rightarrow> pendingMaliciousEvents (state m)
        | Some p \<Rightarrow> setHandled (sameEvent e) (pendingMaliciousEvents (state m)))"
  by (simp add: markEventAsHandled_def Let_def publish_fields calculateScore_fields
        split: option.splits)

lemma markEventAsHandled_found_again:
  "fst (markEventAsHandled e later (snd (markEventAsHandled e now m)))
     = fst (markEventAsHandled e now m)"
proof (cases "find (sameEvent e) (pendingMaliciousEvents (state m))")
  case None
  then show ?thesis by (simp add: markEventAsHandled_def)
next
  case (Some p)
  then have "find (sameEvent e) (pendingMaliciousEvents (state (snd (markEventAsHandled e now m))))
      = Some (p\<lparr>handled := True\<rparr>)"
    by (simp add: markEventAsHandled_pending find_setHandled)
  with Some show ?thesis by (simp add: markEventAsHandled_def Let_def)
qed

section \<open>Marking an event handled\<close>

text \<open>
  Claim C1. \<open>markEventAsHandled\<close> is meant to be idempotent: on an event whose pending
  entry is already handled, a second call should return false, leave the score alone and
  publish nothing. The lookup does not read the handled flag, so as long as the entry has
  not been swept the second call finds it again: below, an event is enqueued at instant 0
  and marked at 1000 (score 1245); marking it again at 2000 returns true, raises the score
  to 2485 and publishes \<open>score:updated\<close> and \<open>event:handled\<close> once more.
\<close>

theorem markEventAsHandled_second_call:
  "map handled (pendingMaliciousEvents (state (snd (markEventAsHandled
      (maliciousEvent ''login_fail'' ''10:00:00'' 3) 1000
      (addEvent (maliciousEvent ''login_fail'' ''10:00:00'' 3) 0 (startModel NoItem True))))))
    = [True]
 \<and> score (state (snd (markEventAsHandled
      (maliciousEvent ''login_fail'' ''10:00:00'' 3) 1000
      (addEvent (maliciousEvent ''login_fail'' ''10:00:00'' 3) 0 (startModel NoItem True)))))
    = 1245
 \<and> fst (markEventAsHandled (maliciousEvent ''login_fail'' ''10:00:00'' 3) 2000
      (snd (markEventAsHandled
        (maliciousEvent ''login_fail'' ''10:00:00'' 3) 1000
        (addEvent (maliciousEvent ''login_fail'' ''10:00:00'' 3) 0 (startModel NoItem True)))))
    = True
 \<and> score (state (snd (markEventAsHandled (maliciousEvent ''login_fail'' ''10:00:00'' 3) 2000
      (snd (markEventAsHandled
        (maliciousEvent ''login_fail'' ''10:00:00'' 3) 1000
        (addEvent (maliciousEvent ''login_fail'' ''10:00:00'' 3) 0 (startModel NoItem True)))))))
    = 2485
 \<and> newPublications
      (snd (markEventAsHandled
        (maliciousEvent ''login_fail'' ''10:00:00'' 3) 1000
        (addEvent (maliciousEvent ''login_fail'' ''10:00:00'' 3) 0 (startModel NoItem True))))
      (snd (markEventAsHandled (maliciousEvent ''login_fail'' ''10:00:00'' 3) 2000
        (snd (markEventAsHandled
          (maliciousEvent ''login_fail'' ''10:00:00'' 3) 1000
          (addEvent (maliciousEvent ''login_fail'' ''10:00:00'' 3) 0 (startModel NoItem True))))))
    = [ScoreUpdated 2485 1240, EventHandled (maliciousEvent ''login_fail'' ''10:00:00'' 3)]"
  by (simp add: eval_defs newPublications_def)

section \<open>The pending collection\<close>

text \<open>
  Claim C2, as the code has it. In every state the simulation reaches, each pending entry
  wraps a malicious event of the event log. \<open>addEvent\<close> enqueues exactly the malicious
  events, unhandled. Marking an event handled, by a player action or by a triggered rule
  on the tick that adds it, sets the handled flag of the first entry with the event's key
  and changes nothing else: the entry stays in the collection. The next
  \<open>checkEscalations\<close> keeps exactly the unhandled entries below the timeout, so an entry
  leaves there because it is handled or because it escalates; the only other way out is
  the reset of the whole state (a game reset, or advancing past the last level). Saving a
  rule and advancing to a further level leave the collection alone.
\<close>

theorem pending_collection_discipline:
  assumes start: "boot item w = Some m0" and reach: "run cs m0 = Some m"
  shows
   "(\<forall>p \<in> set (pendingMaliciousEvents (state m)).
       category (entryEvent p) = ''malicious'' \<and> entryEvent p \<in> set (events (state m)))
  \<and> pendingMaliciousEvents (state (addEvent e enq m))
      = pendingMaliciousEvents (state m)
        @ (if category e = ''malicious''
           then [\<lparr>entryEvent = e, enqueuedAt = enq, handled = False\<rparr>] else [])
  \<and> (\<exists>m'. perform c m = Some m'
        \<and> (case c of
             Tick e enq now \<Rightarrow>
               (if ruleEngineSubscribed m
                   \<and> (\<exists>r \<in> set (rules (state m)). evaluateRule (Some r) (Some e))
                then marksFirst e
                       (pendingMaliciousEvents (state m)
                        @ (if category e = ''malicious''
                           then [\<lparr>entryEvent = e, enqueuedAt = enq, handled = False\<rparr>] else []))
                       (pendingMaliciousEvents (state m'))
                else pendingMaliciousEvents (state m')
                       = pendingMaliciousEvents (state m)
                         @ (if category e = ''malicious''
                            then [\<lparr>entryEvent = e, enqueuedAt = enq, handled = False\<rparr>] else []))
           | MarkHandled e now \<Rightarrow>
               marksFirst e (pendingMaliciousEvents (state m)) (pendingMaliciousEvents (state m'))
           | Sweep now \<Rightarrow>
               pendingMaliciousEvents (state m')
                 = filter (\<lambda>p. \<not> handled p \<and> now - enqueuedAt p < escalationTimeout (settings m))
                     (pendingMaliciousEvents (state m))
           | ResetGame \<Rightarrow> pendingMaliciousEvents (state m') = []
           | NextLevel \<Rightarrow>
               (if numBelow (currentLevelIndex m) (of_nat (length levels) - 1)
                then pendingMaliciousEvents (state m') = pendingMaliciousEvents (state m)
                else pendingMaliciousEvents (state m') = [])
           | SaveRule r \<Rightarrow> pendingMaliciousEvents (state m') = pendingMaliciousEvents (state m)))"
proof -
  from boot_wellFormed[OF start] have "pendingWellFormed m0" .
  from run_wellFormed[OF this, of cs] reach have wf: "pendingWellFormed m" by simp
  then have inv: "\<forall>p \<in> set (pendingMaliciousEvents (state m)).
       category (entryEvent p) = ''malicious'' \<and> entryEvent p \<in> set (events (state m))"
    by (simp add: pendingWellFormed_def)
  have add: "pendingMaliciousEvents (state (addEvent e enq m))
      = pendingMaliciousEvents (state m)
        @ (if category e = ''malicious''
           then [\<lparr>entryEvent = e, enqueuedAt = enq, handled = False\<rparr>] else [])"
    by (rule addEvent_fields)
  from perform_pending[OF wf, of c] inv add show ?thesis by blast
qed

theorem pending_collection_discipline_witness:
  "boot NoItem True = Some bootedModel
 \<and> map_option (\<lambda>m. pendingMaliciousEvents (state m))
      (run [Tick (maliciousEvent ''login_fail'' ''10:00:00'' 3) 0 0] bootedModel)
    = Some [\<lparr>entryEvent = maliciousEvent ''login_fail'' ''10:00:00'' 3, enqueuedAt = 0,
              handled = False\<rparr>]
 \<and> map_option (\<lambda>m. pendingMaliciousEvents (state m))
      (run [Tick (maliciousEvent ''login_fail'' ''10:00:00'' 3) 0 0,
            MarkHandled (maliciousEvent ''login_fail'' ''10:00:00'' 3) 1000] bootedModel)
    = Some [\<lparr>entryEvent = maliciousEvent ''login_fail'' ''10:00:00'' 3, enqueuedAt = 0,
              handled = True\<rparr>]"
proof -
  let ?e = "maliciousEvent ''login_fail'' ''10:00:00'' 3"
  let ?p = "\<lparr>entryEvent = ?e, enqueuedAt = 0, handled = False\<rparr>"
  have wf0: "pendingWellFormed bootedModel" by (rule boot_wellFormed[OF boot_fresh])
  obtain m1 where r1: "run [Tick ?e 0 0] bootedModel = Some m1"
    using run_wellFormed[OF wf0, of "[Tick ?e 0 0]"] by blast
  have ev: "map_option (\<lambda>m. pendingMaliciousEvents (state m)) (run [Tick ?e 0 0] bootedModel)
      = Some [?p]"
    by (simp add: bootedModel_def eval_defs)
  with r1 have p1: "pendingMaliciousEvents (state m1) = [?p]" by simp
  from pending_collection_discipline[OF boot_fresh r1, where c = "MarkHandled ?e 1000"]
  obtain m2 where r2: "perform (MarkHandled ?e 1000) m1 = Some m2"
    and mk: "marksFirst ?e (pendingMaliciousEvents (state m1)) (pendingMaliciousEvents (state m2))"
    by auto
  have same: "sameEvent ?e ?p" by (simp add: sameEvent_def)
  from mk same have p2: "pendingMaliciousEvents (state m2) = [?p\<lparr>handled := True\<rparr>]"
    by (simp add: p1 marksFirst_def)
  from r1 have "perform (Tick ?e 0 0) bootedModel = Some m1"
    by (simp split: option.splits)
  with r2 have "run [Tick ?e 0 0, MarkHandled ?e 1000] bootedModel = Some m2" by simp
  with p2 ev boot_fresh show ?thesis by simp
qed

theorem handled_entry_still_pending_counterexample:
  "map_option (\<lambda>m. map handled (pendingMaliciousEvents (state m)))
      (Option.bind (boot NoItem True)
         (run [Tick (maliciousEvent ''login_fail'' ''10:00:00'' 3) 0 0,
               MarkHandled (maliciousEvent ''login_fail'' ''10:00:00'' 3) 1000]))
    = Some [True]
 \<and> map_option (\<lambda>m. pendingMaliciousEvents (state m))
      (Option.bind (boot NoItem True)
         (run [Tick (maliciousEvent ''login_fail'' ''10:00:00'' 3) 0 0, ResetGame]))
    = Some []"
  by (simp add: boot_fresh) (simp add: bootedModel_def eval_defs)

section \<open>The escalation sweep\<close>

text \<open>
  Claim C3. After \<open>checkEscalations\<close>: an entry already handled is gone from the pending
  list and not escalated; an unhandled entry whose dwell time \<open>now - enqueuedAt\<close> has
  reached the escalation timeout is gone from the pending list and its event is in the
  returned list, by this one call (a second call at the same instant returns nothing); an
  unhandled entry below the timeout stays; \<open>events:escalated\<close> is published exactly when
  the returned list is not empty.
\<close>

theorem checkEscalations_postcondition:
  fixes now :: int and m :: gameModel
  defines "timeout \<equiv> escalationTimeout (settings m)"
  defines "before \<equiv> pendingMaliciousEvents (state m)"
  defines "escalated \<equiv> fst (checkEscalations now m)"
  defines "m' \<equiv> snd (checkEscalations now m)"
  shows
   "pendingMaliciousEvents (state m')
      = filter (\<lambda>p. \<not> handled p \<and> now - enqueuedAt p < timeout) before
  \<and> escalated
      = map entryEvent (filter (\<lambda>p. \<not> handled p \<and> now - enqueuedAt p \<ge> timeout) before)
  \<and> (\<forall>p \<in> set before. handled p \<longrightarrow> p \<notin> set (pendingMaliciousEvents (state m')))
  \<and> (\<forall>p \<in> set before. \<not> handled p \<and> now - enqueuedAt p \<ge> timeout \<longrightarrow>
        p \<notin> set (pendingMaliciousEvents (state m')) \<and> entryEvent p \<in> set escalated)
  \<and> (\<forall>p \<in> set before. \<not> handled p \<and> now - enqueuedAt p < timeout \<longrightarrow>
        p \<in> set (pendingMaliciousEvents (state m')))
  \<and> fst (checkEscalations now m') = []
  \<and> published m'
      = published m @ (if escalated = [] then [] else [EventsEscalated escalated])"
proof -
  have kept: "pendingMaliciousEvents (state m')
      = filter (\<lambda>p. \<not> handled p \<and> now - enqueuedAt p < timeout) before"
    unfolding m'_def timeout_def before_def by (rule checkEscalations_pending)
  have esc: "escalated
      = map entryEvent (filter (\<lambda>p. \<not> handled p \<and> now - enqueuedAt p \<ge> timeout) before)"
    unfolding escalated_def timeout_def before_def by (rule checkEscalations_result)
  have again: "fst (checkEscalations now m') = []"
    unfolding checkEscalations_result kept
    by (simp add: m'_def checkEscalations_settings timeout_def filter_empty_conv)
  have pub: "published m'
      = published m @ (if escalated = [] then [] else [EventsEscalated escalated])"
    unfolding m'_def escalated_def by (rule checkEscalations_published)
  show ?thesis
    unfolding kept esc using again pub esc by auto
qed

theorem checkEscalations_postcondition_witness:
  "fst (checkEscalations 44999 (addEvent (maliciousEvent ''login_fail'' ''10:00:00'' 3) 0 (startModel NoItem True))) = []
 \<and> pendingMaliciousEvents (state (snd (checkEscalations 44999
        (addEvent (maliciousEvent ''login_fail'' ''10:00:00'' 3) 0 (startModel NoItem True)))))
      = [\<lparr>entryEvent = maliciousEvent ''login_fail'' ''10:00:00'' 3, enqueuedAt = 0, handled = False\<rparr>]
 \<and> fst (checkEscalations 45000 (addEvent (maliciousEvent ''login_fail'' ''10:00:00'' 3) 0 (startModel NoItem True)))
      = [maliciousEvent ''login_fail'' ''10:00:00'' 3]
 \<and> pendingMaliciousEvents (state (snd (checkEscalations 45000
        (addEvent (maliciousEvent ''login_fail'' ''10:00:00'' 3) 0 (startModel NoItem True))))) = []
 \<and> newPublications (addEvent (maliciousEvent ''login_fail'' ''10:00:00'' 3) 0 (startModel NoItem True))
      (snd (checkEscalations 45000
        (addEvent (maliciousEvent ''login_fail'' ''10:00:00'' 3) 0 (startModel NoItem True))))
      = [EventsEscalated [maliciousEvent ''login_fail'' ''10:00:00'' 3]]
 \<and> fst (checkEscalations 50000
        ((startModel NoItem True)\<lparr>state := defaultState\<lparr>pendingMaliciousEvents :=
           [\<lparr>entryEvent = maliciousEvent ''dns_query'' ''10:00:01'' 4, enqueuedAt = 1000, handled = True\<rparr>]\<rparr>\<rparr>)) = []
 \<and> pendingMaliciousEvents (state (snd (checkEscalations 50000
        ((startModel NoItem True)\<lparr>state := defaultState\<lparr>pendingMaliciousEvents :=
           [\<lparr>entryEvent = maliciousEvent ''dns_query'' ''10:00:01'' 4, enqueuedAt = 1000, handled = True\<rparr>]\<rparr>\<rparr>)))) = []"
proof -
  let ?e = "maliciousEvent ''login_fail'' ''10:00:00'' 3"
  let ?m = "addEvent ?e 0 (startModel NoItem True)"
  let ?h = "(startModel NoItem True)\<lparr>state := defaultState\<lparr>pendingMaliciousEvents :=
           [\<lparr>entryEvent = maliciousEvent ''dns_query'' ''10:00:01'' 4, enqueuedAt = 1000, handled = True\<rparr>]\<rparr>\<rparr>"
  have pm: "pendingMaliciousEvents (state ?m) = [\<lparr>entryEvent = ?e, enqueuedAt = 0, handled = False\<rparr>]"
    and tm: "escalationTimeout (settings ?m) = 45000" and lm: "published ?m = [EventAdded ?e]"
    by (simp_all add: addEvent_def Let_def publish_def startModel_def defaultState_def
          defaultSettings_def sample_defs)
  have ph: "pendingMaliciousEvents (state ?h)
      = [\<lparr>entryEvent = maliciousEvent ''dns_query'' ''10:00:01'' 4, enqueuedAt = 1000, handled = True\<rparr>]"
    and th: "escalationTimeout (settings ?h) = 45000"
    by (simp_all add: startModel_def defaultSettings_def)
  have a: "fst (checkEscalations 44999 ?m) = []
     \<and> pendingMaliciousEvents (state (snd (checkEscalations 44999 ?m)))
         = [\<lparr>entryEvent = ?e, enqueuedAt = 0, handled = False\<rparr>]"
    using checkEscalations_postcondition [of 44999 ?m] by (simp add: pm tm)
  have b: "fst (checkEscalations 45000 ?m) = [?e]
     \<and> pendingMaliciousEvents (state (snd (checkEscalations 45000 ?m))) = []
     \<and> newPublications ?m (snd (checkEscalations 45000 ?m)) = [EventsEscalated [?e]]"
    using checkEscalations_postcondition [of 45000 ?m] by (simp add: pm tm lm newPublications_def)
  have c: "fst (checkEscalations 50000 ?h) = []
     \<and> pendingMaliciousEvents (state (snd (checkEscalations 50000 ?h))) = []"
    using checkEscalations_postcondition [of 50000 ?h] by (simp add: ph th)
  from a b c show ?thesis by blast
qed

section \<open>Advancing past the last level\<close>

text \<open>
  Claim C4, as the code has it. Advancing past the last level of the table resets the whole
  state (score 0, level 1, level index 0) and returns false. The state-reset event
  \<open>gameState:reset\<close> is published first, then \<open>settings:updated\<close>, then
  \<open>game:completed\<close> last: the reset event precedes \<open>game:completed\<close>.
\<close>

theorem startNextLevel_past_last_level:
  assumes last: "numAtLeast (currentLevelIndex m) (of_nat (length levels) - 1)"
  shows "\<exists>m'. startNextLevel m = Some (False, m')
     \<and> state m' = defaultState \<and> score (state m') = 0
     \<and> level (state m') = VNumber (Finite 1) \<and> currentLevelIndex m' = Finite 0
     \<and> newPublications m m'
         = (if storageWritable m then []
            else [NotificationError ''Failed to save game state. Storage may be full or disabled.''])
           @ [GameStateReset defaultState,
              SettingsUpdated ((settings m)\<lparr>settingsFrequencyMultiplier := 1/2,
                                             settingsNoiseProbability := 1/10,
                                             settingsSophistication := ''basic''\<rparr>),
              GameCompleted]
     \<and> firedBefore isResetEvent isCompleted (newPublications m m')
     \<and> \<not> firedBefore isCompleted isResetEvent (newPublications m m')"
proof -
  from last have branch: "\<not> numBelow (currentLevelIndex m) (of_nat (length levels) - 1)"
    by (cases "currentLevelIndex m") simp_all
  show ?thesis
    unfolding startNextLevel_def
    by (simp only: branch if_False)
       (simp add: resetGameState_def saveGameState_def applyLevelSettings_def
          getCurrentLevel_def levels_def publish_def newPublications_def Let_def defaultState_def)
qed

theorem startNextLevel_past_last_level_witness:
  "numAtLeast (currentLevelIndex (loadGameState (startModel lastLevelItem True)))
     (of_nat (length levels) - 1)
 \<and> score (state (loadGameState (startModel lastLevelItem True))) = 2500
 \<and> map_option fst (startNextLevel (loadGameState (startModel lastLevelItem True))) = Some False
 \<and> map_option (\<lambda>r. score (state (snd r))) (startNextLevel (loadGameState (startModel lastLevelItem True)))
      = Some 0
 \<and> map_option (\<lambda>r. level (state (snd r))) (startNextLevel (loadGameState (startModel lastLevelItem True)))
      = Some (VNumber (Finite 1))
 \<and> map_option (\<lambda>r. published (snd r)) (startNextLevel (loadGameState (startModel lastLevelItem True)))
      = Some [GameStateReset defaultState,
              SettingsUpdated (defaultSettings\<lparr>settingsFrequencyMultiplier := 1/2\<rparr>),
              GameCompleted]"
proof -
  let ?m = "loadGameState (startModel lastLevelItem True)"
  have h: "numAtLeast (currentLevelIndex ?m) (of_nat (length levels) - 1)"
    by (simp add: loadGameState_lastLevel levels_def)
  have s: "settings ?m = defaultSettings"
    by (simp add: loadGameState_def startModel_def lastLevelItem_def copyValid_def Let_def levels_def)
  from startNextLevel_past_last_level [OF h] obtain m' where
    r: "startNextLevel ?m = Some (False, m')" and sc: "score (state m') = 0"
    and lv: "level (state m') = VNumber (Finite 1)"
    and np: "newPublications ?m m' = (if storageWritable ?m then []
            else [NotificationError ''Failed to save game state. Storage may be full or disabled.''])
           @ [GameStateReset defaultState,
              SettingsUpdated ((settings ?m)\<lparr>settingsFrequencyMultiplier := 1/2,
                                             settingsNoiseProbability := 1/10,
                                             settingsSophistication := ''basic''\<rparr>),
              GameCompleted]"
    by blast
  from np have "published m' = [GameStateReset defaultState,
              SettingsUpdated (defaultSettings\<lparr>settingsFrequencyMultiplier := 1/2\<rparr>),
              GameCompleted]"
    by (simp add: newPublications_def loadGameState_lastLevel s defaultSettings_def)
  with h r sc lv show ?thesis by (simp add: loadGameState_lastLevel)
qed

theorem completed_before_reset_counterexample:
  "map_option
     (\<lambda>r. (fst r, score (state (snd r)), level (state (snd r)),
           firedBefore isCompleted isResetEvent
             (newPublications (loadGameState (startModel lastLevelItem True)) (snd r)),
           firedBefore isResetEvent isCompleted
             (newPublications (loadGameState (startModel lastLevelItem True)) (snd r))))
     (startNextLevel (loadGameState (startModel lastLevelItem True)))
   = Some (False, 0, VNumber (Finite 1), False, True)"
  by (simp add: startNextLevel_def loadGameState_def startModel_def lastLevelItem_def
        copyValid_def Let_def levels_def resetGameState_def saveGameState_def
        applyLevelSettings_def getCurrentLevel_def publish_def newPublications_def
        defaultState_def)

section \<open>Rule evaluation\<close>

text \<open>
  Claim C5. For every rule and every event, \<open>evaluateRule\<close> is false whenever the
  event's type differs from the rule's condition type: a rule never matches an event of
  another type.
\<close>

theorem evaluateRule_type_safety:
  "type e \<noteq> conditionType r \<Longrightarrow> evaluateRule (Some r) (Some e) = False"
  by (auto simp: evaluateRule_def)

theorem evaluateRule_type_safety_witness:
  "type (blankEvent\<lparr>type := Some ''traffic_spike'', volume := JNumber 600\<rparr>)
     \<noteq> conditionType (blankRule\<lparr>conditionType := Some ''login_fail'', threshold := JString ''5''\<rparr>)
   \<and> evaluateRule (Some (blankRule\<lparr>conditionType := Some ''login_fail'', threshold := JString ''5''\<rparr>))
        (Some (blankEvent\<lparr>type := Some ''traffic_spike'', volume := JNumber 600\<rparr>)) = False"
  using evaluateRule_type_safety
    [of "blankEvent\<lparr>type := Some ''traffic_spike'', volume := JNumber 600\<rparr>"
        "blankRule\<lparr>conditionType := Some ''login_fail'', threshold := JString ''5''\<rparr>"]
  by (simp add: blankEvent_def blankRule_def)

text \<open>
  Claim C6. For a rule that passes \<open>validateRule\<close> and an event of the rule's type:
  \<open>login_fail\<close> and \<open>traffic_spike\<close> match iff the event's count, respectively volume,
  is strictly greater than the rule's threshold; \<open>process_spawn\<close> and
  \<open>service_failure\<close> match iff the event's process, respectively service, equals the
  rule's name; \<open>dns_query\<close> and \<open>unauthorized_access\<close> match iff the event's domain,
  respectively resource, contains the rule's keyword; \<open>http_error\<close> matches iff the
  event's code is at least the rule's threshold. Numbers are read with \<open>parseInt\<close>.
\<close>

theorem evaluateRule_semantics:
  assumes valid: "validateRule (Some r)" and same: "type e = conditionType r"
  shows
   "(conditionType r = Some ''login_fail'' \<longrightarrow>
       (\<exists>t. parseInt (threshold r) = Some t
          \<and> (evaluateRule (Some r) (Some e) \<longleftrightarrow> (\<exists>c. parseInt (count e) = Some c \<and> c > t))))
  \<and> (conditionType r = Some ''traffic_spike'' \<longrightarrow>
       (\<exists>t. parseInt (threshold r) = Some t
          \<and> (evaluateRule (Some r) (Some e) \<longleftrightarrow> (\<exists>c. parseInt (volume e) = Some c \<and> c > t))))
  \<and> (conditionType r = Some ''process_spawn'' \<longrightarrow>
       (evaluateRule (Some r) (Some e) \<longleftrightarrow> process e = processName r))
  \<and> (conditionType r = Some ''service_failure'' \<longrightarrow>
       (evaluateRule (Some r) (Some e) \<longleftrightarrow> service e = serviceName r))
  \<and> (conditionType r = Some ''dns_query'' \<longrightarrow>
       (\<exists>k. domainKeyword r = Some k
          \<and> (evaluateRule (Some r) (Some e)
               \<longleftrightarrow> (\<exists>d ps ss. domain e = Some d \<and> d = ps @ k @ ss))))
  \<and> (conditionType r = Some ''unauthorized_access'' \<longrightarrow>
       (\<exists>k. resourceKeyword r = Some k
          \<and> (evaluateRule (Some r) (Some e)
               \<longleftrightarrow> (\<exists>d ps ss. resource e = Some d \<and> d = ps @ k @ ss))))
  \<and> (conditionType r = Some ''http_error'' \<longrightarrow>
       (\<exists>t. parseInt (errorCodeThreshold r) = Some t
          \<and> (evaluateRule (Some r) (Some e) \<longleftrightarrow> (\<exists>c. parseInt (code e) = Some c \<and> c \<ge> t))))"
proof (intro conjI impI)
  assume ct: "conditionType r = Some ''login_fail''"
  with valid obtain t where t: "parseInt (threshold r) = Some t"
    by (auto simp: validateRule_def)
  with ct same show "\<exists>t. parseInt (threshold r) = Some t
          \<and> (evaluateRule (Some r) (Some e) \<longleftrightarrow> (\<exists>c. parseInt (count e) = Some c \<and> c > t))"
    by (simp add: evaluateRule_def numGreater_iff)
next
  assume ct: "conditionType r = Some ''traffic_spike''"
  with valid obtain t where t: "parseInt (threshold r) = Some t"
    by (auto simp: validateRule_def)
  with ct same show "\<exists>t. parseInt (threshold r) = Some t
          \<and> (evaluateRule (Some r) (Some e) \<longleftrightarrow> (\<exists>c. parseInt (volume e) = Some c \<and> c > t))"
    by (simp add: evaluateRule_def numGreater_iff)
next
  assume ct: "conditionType r = Some ''process_spawn''"
  with valid have "nonBlank (processName r)" by (simp add: validateRule_def)
  then obtain s where "processName r = Some s" "s \<noteq> []" using nonBlank_Some by blast
  with ct same show "evaluateRule (Some r) (Some e) \<longleftrightarrow> process e = processName r"
    by (auto simp: evaluateRule_def)
next
  assume ct: "conditionType r = Some ''service_failure''"
  with same show "evaluateRule (Some r) (Some e) \<longleftrightarrow> service e = serviceName r"
    by (simp add: evaluateRule_def)
next
  assume ct: "conditionType r = Some ''dns_query''"
  with valid have "nonBlank (domainKeyword r)" by (simp add: validateRule_def)
  then obtain k where k: "domainKeyword r = Some k" "k \<noteq> []" using nonBlank_Some by blast
  with ct same show "\<exists>k. domainKeyword r = Some k
          \<and> (evaluateRule (Some r) (Some e)
               \<longleftrightarrow> (\<exists>d ps ss. domain e = Some d \<and> d = ps @ k @ ss))"
    by (simp add: evaluateRule_def presentIncludes_nonempty)
next
  assume ct: "conditionType r = Some ''unauthorized_access''"
  with valid have "nonBlank (resourceKeyword r)" by (simp add: validateRule_def)
  then obtain k where k: "resourceKeyword r = Some k" "k \<noteq> []" using nonBlank_Some by blast
  with ct same show "\<exists>k. resourceKeyword r = Some k
          \<and> (evaluateRule (Some r) (Some e)
               \<longleftrightarrow> (\<exists>d ps ss. resource e = Some d \<and> d = ps @ k @ ss))"
    by (simp add: evaluateRule_def presentIncludes_nonempty)
next
  assume ct: "conditionType r = Some ''http_error''"
  with valid obtain t where t: "parseInt (errorCodeThreshold r) = Some t"
    by (auto simp: validateRule_def)
  with ct same show "\<exists>t. parseInt (errorCodeThreshold r) = Some t
          \<and> (evaluateRule (Some r) (Some e) \<longleftrightarrow> (\<exists>c. parseInt (code e) = Some c \<and> c \<ge> t))"
    by (simp add: evaluateRule_def numGreaterEq_iff)
qed

theorem evaluateRule_semantics_witness:
  "evaluateRule (Some (blankRule\<lparr>conditionType := Some ''login_fail'', threshold := JString ''5''\<rparr>))
     (Some (blankEvent\<lparr>type := Some ''login_fail'', count := JNumber 6\<rparr>))
 \<and> \<not> evaluateRule (Some (blankRule\<lparr>conditionType := Some ''login_fail'', threshold := JString ''5''\<rparr>))
     (Some (blankEvent\<lparr>type := Some ''login_fail'', count := JNumber 5\<rparr>))
 \<and> evaluateRule (Some (blankRule\<lparr>conditionType := Some ''traffic_spike'', threshold := JString ''400''\<rparr>))
     (Some (blankEvent\<lparr>type := Some ''traffic_spike'', volume := JNumber 401\<rparr>))
 \<and> evaluateRule (Some (blankRule\<lparr>conditionType := Some ''process_spawn'', processName := Some ''miner.bin''\<rparr>))
     (Some (blankEvent\<lparr>type := Some ''process_spawn'', process := Some ''miner.bin''\<rparr>))
 \<and> \<not> evaluateRule (Some (blankRule\<lparr>conditionType := Some ''service_failure'', serviceName := Some ''firewall''\<rparr>))
     (Some (blankEvent\<lparr>type := Some ''service_failure'', service := Some ''firewall2''\<rparr>))
 \<and> evaluateRule (Some (blankRule\<lparr>conditionType := Some ''dns_query'', domainKeyword := Some ''site''\<rparr>))
     (Some (blankEvent\<lparr>type := Some ''dns_query'', domain := Some ''badsite.com''\<rparr>))
 \<and> \<not> evaluateRule (Some (blankRule\<lparr>conditionType := Some ''unauthorized_access'', resourceKeyword := Some ''admin''\<rparr>))
     (Some (blankEvent\<lparr>type := Some ''unauthorized_access''\<rparr>))
 \<and> evaluateRule (Some (blankRule\<lparr>conditionType := Some ''http_error'', errorCodeThreshold := JString ''404''\<rparr>))
     (Some (blankEvent\<lparr>type := Some ''http_error'', code := JNumber 404\<rparr>))"
proof -
  have p5: "parseIntStr ''5'' = Some 5" and p400: "parseIntStr ''400'' = Some 400"
    and p404: "parseIntStr ''404'' = Some 404"
    by (simp_all add: parse_defs)
  have t: "trim ''miner.bin'' = ''miner.bin''" "trim ''firewall'' = ''firewall''"
    "trim ''site'' = ''site''" "trim ''admin'' = ''admin''"
    by (simp_all add: trim_def isWhite_def)
  have w1: "evaluateRule (Some (blankRule\<lparr>conditionType := Some ''login_fail'', threshold := JString ''5''\<rparr>))
     (Some (blankEvent\<lparr>type := Some ''login_fail'', count := JNumber 6\<rparr>))"
    using evaluateRule_semantics
      [of "blankRule\<lparr>conditionType := Some ''login_fail'', threshold := JString ''5''\<rparr>"
          "blankEvent\<lparr>type := Some ''login_fail'', count := JNumber 6\<rparr>"]
    by (simp add: validateRule_def sample_defs p5)
  have w2: "\<not> evaluateRule (Some (blankRule\<lparr>conditionType := Some ''login_fail'', threshold := JString ''5''\<rparr>))
     (Some (blankEvent\<lparr>type := Some ''login_fail'', count := JNumber 5\<rparr>))"
    using evaluateRule_semantics
      [of "blankRule\<lparr>conditionType := Some ''login_fail'', threshold := JString ''5''\<rparr>"
          "blankEvent\<lparr>type := Some ''login_fail'', count := JNumber 5\<rparr>"]
    by (simp add: validateRule_def sample_defs p5)
  have w3: "evaluateRule (Some (blankRule\<lparr>conditionType := Some ''traffic_spike'', threshold := JString ''400''\<rparr>))
     (Some (blankEvent\<lparr>type := Some ''traffic_spike'', volume := JNumber 401\<rparr>))"
    using evaluateRule_semantics
      [of "blankRule\<lparr>conditionType := Some ''traffic_spike'', threshold := JString ''400''\<rparr>"
          "blankEvent\<lparr>type := Some ''traffic_spike'', volume := JNumber 401\<rparr>"]
    by (simp add: validateRule_def sample_defs p400)
  have w4: "evaluateRule (Some (blankRule\<lparr>conditionType := Some ''process_spawn'', processName := Some ''miner.bin''\<rparr>))
     (Some (blankEvent\<lparr>type := Some ''process_spawn'', process := Some ''miner.bin''\<rparr>))"
    using evaluateRule_semantics
      [of "blankRule\<lparr>conditionType := Some ''process_spawn'', processName := Some ''miner.bin''\<rparr>"
          "blankEvent\<lparr>type := Some ''process_spawn'', process := Some ''miner.bin''\<rparr>"]
    by (simp add: validateRule_def nonBlank_def sample_defs t)
  have w5: "\<not> evaluateRule (Some (blankRule\<lparr>conditionType := Some ''service_failure'', serviceName := Some ''firewall''\<rparr>))
     (Some (blankEvent\<lparr>type := Some ''service_failure'', service := Some ''firewall2''\<rparr>))"
    using evaluateRule_semantics
      [of "blankRule\<lparr>conditionType := Some ''service_failure'', serviceName := Some ''firewall''\<rparr>"
          "blankEvent\<lparr>type := Some ''service_failure'', service := Some ''firewall2''\<rparr>"]
    by (simp add: validateRule_def nonBlank_def sample_defs t)
  have sub: "\<exists>ps ss. ''badsite.com'' = ps @ ''site'' @ ss"
    by (rule exI[of _ "''bad''"], rule exI[of _ "''.com''"]) simp
  have w6: "evaluateRule (Some (blankRule\<lparr>conditionType := Some ''dns_query'', domainKeyword := Some ''site''\<rparr>))
     (Some (blankEvent\<lparr>type := Some ''dns_query'', domain := Some ''badsite.com''\<rparr>))"
    using sub evaluateRule_semantics
      [of "blankRule\<lparr>conditionType := Some ''dns_query'', domainKeyword := Some ''site''\<rparr>"
          "blankEvent\<lparr>type := Some ''dns_query'', domain := Some ''badsite.com''\<rparr>"]
    by (simp add: validateRule_def nonBlank_def sample_defs t)
  have w7: "\<not> evaluateRule (Some (blankRule\<lparr>conditionType := Some ''unauthorized_access'', resourceKeyword := Some ''admin''\<rparr>))
     (Some (blankEvent\<lparr>type := Some ''unauthorized_access''\<rparr>))"
    using evaluateRule_semantics
      [of "blankRule\<lparr>conditionType := Some ''unauthorized_access'', resourceKeyword := Some ''admin''\<rparr>"
          "blankEvent\<lparr>type := Some ''unauthorized_access''\<rparr>"]
    by (simp add: validateRule_def nonBlank_def sample_defs t)
  have w8: "evaluateRule (Some (blankRule\<lparr>conditionType := Some ''http_error'', errorCodeThreshold := JString ''404''\<rparr>))
     (Some (blankEvent\<lparr>type := Some ''http_error'', code := JNumber 404\<rparr>))"
    using evaluateRule_semantics
      [of "blankRule\<lparr>conditionType := Some ''http_error'', errorCodeThreshold := JString ''404''\<rparr>"
          "blankEvent\<lparr>type := Some ''http_error'', code := JNumber 404\<rparr>"]
    by (simp add: validateRule_def sample_defs p404)
  from w1 w2 w3 w4 w5 w6 w7 w8 show ?thesis by blast
qed

section \<open>Scoring\<close>

text \<open>
  Claim C7. \<open>calculateScore\<close> computes detected * 100 + speed * 5 + uptime * 10 -
  falsePositives * 50, rounds it to the nearest integer and clamps it at 0 (in either
  order), adds the result to the cumulative score and returns it; for the arguments
  1, 25, 80, 0 the result is 1025.
\<close>

theorem calculateScore_points:
  fixes d s u f :: rat and m :: gameModel
  defines "raw \<equiv> d * 100 + s * 5 + u * 10 - f * 50"
  defines "earned \<equiv> fst (calculateScore d s u f m)"
  defines "m' \<equiv> snd (calculateScore d s u f m)"
  shows
   "earned = max 0 (of_int \<lfloor>raw + 1/2\<rfloor>)
  \<and> earned = mathRound (max 0 raw)
  \<and> \<bar>mathRound (max 0 raw) - max 0 raw\<bar> \<le> 1/2
  \<and> earned \<in> \<int> \<and> earned \<ge> 0
  \<and> score (state m') = score (state m) + earned
  \<and> last (published m') = ScoreUpdated (score (state m) + earned) earned
  \<and> fst (calculateScore 1 25 80 0 m) = 1025"
proof -
  have e: "earned = max 0 (mathRound raw)"
    by (simp add: earned_def raw_def calculateScore_def Let_def)
  have e1: "earned = max 0 (of_int \<lfloor>raw + 1/2\<rfloor>)" using e by (simp add: mathRound_def)
  have e2: "earned = mathRound (max 0 raw)" using e by (simp add: mathRound_clamp)
  have e3: "earned \<in> \<int>" unfolding e2 mathRound_def by simp
  have e4: "earned \<ge> 0" unfolding e by simp
  have sc: "score (state m') = score (state m) + earned"
    unfolding e by (simp add: m'_def raw_def calculateScore_def Let_def saveGameState_def publish_def)
  have pb: "last (published m') = ScoreUpdated (score (state m) + earned) earned"
    unfolding e by (simp add: m'_def raw_def calculateScore_def Let_def saveGameState_def publish_def)
  have ex: "fst (calculateScore 1 25 80 0 m) = 1025"
    by (simp add: calculateScore_def Let_def mathRound_def floor_numeral_div_rat)
  from e1 e2 e3 e4 sc pb ex mathRound_nearest[of "max 0 raw"] show ?thesis by blast
qed

section \<open>Persistence\<close>

text \<open>
  What loading does with two stored records that fall outside the cases below: a stored
  object with a key of its own named \<open>hasOwnProperty\<close> is not loaded at all, and a stored
  level that is not a whole number but passes the bounds check, such as 2.5 or a text that
  reads as no number, is loaded and leaves a level index under which \<open>init\<close> throws.
\<close>

lemma loadGameState_shadowed_hasOwnProperty:
  "localStorage m0 = Parsed sn \<Longrightarrow> ''hasOwnProperty'' \<in> set (map fst (otherKeys sn))
   \<Longrightarrow> loadGameState m0 = fallBackToFirstLevel m0"
  by (simp add: loadGameState_def)

lemma init_throws_on_fractional_level:
  "boot (Parsed ((snapshotOf defaultState)\<lparr>savedLevel := Some (VNumber (Finite (5/2)))\<rparr>)) w = None"
  "boot (Parsed ((snapshotOf defaultState)\<lparr>savedLevel := Some (VString ''abc'')\<rparr>)) w = None"
  by (simp_all add: boot_def init_def loadGameState_def applyLevelSettings_def
        getCurrentLevel_def startModel_def snapshotOf_def copyValid_def defaultState_def
        levels_def Let_def stringToNumber_def trim_def radixLiteral_def unsignedDecimal_def
        parse_defs floor_numeral_div_rat)

text \<open>
  Claim C8, as the code has it. Saving a state whose level is in the level table and loading
  the stored item into a session reproduces level, score, uptime, rules and level progress,
  and nothing else of the session changes. Keys of the stored object outside these five
  are ignored, provided none of them is named \<open>hasOwnProperty\<close>. A missing or unreadable
  item leaves the session as it is, with level 1 and level index 0 (at process start: the
  default state). A stored level that fails the bounds check, its numeric reading less 1
  being below 0 or at least the length of the table, is replaced by level 1 and level index
  0, while the other stored fields are loaded as they are.
\<close>

theorem persistence_roundtrip:
  "(storageWritable m \<and> level (state m) = VNumber (Finite (of_int k))
      \<and> 1 \<le> k \<and> k \<le> int (length levels)
      \<and> localStorage m0 = localStorage (saveGameState m) \<longrightarrow>
        level (state (loadGameState m0)) = level (state m)
      \<and> score (state (loadGameState m0)) = score (state m)
      \<and> uptime (state (loadGameState m0)) = uptime (state m)
      \<and> rules (state (loadGameState m0)) = rules (state m)
      \<and> levelProgress (state (loadGameState m0)) = levelProgress (state m)
      \<and> currentLevelIndex (loadGameState m0) = Finite (of_int k - 1)
      \<and> events (state (loadGameState m0)) = events (state m0)
      \<and> pendingMaliciousEvents (state (loadGameState m0)) = pendingMaliciousEvents (state m0)
      \<and> trafficData (state (loadGameState m0)) = trafficData (state m0)
      \<and> isRunning (state (loadGameState m0)) = isRunning (state m0))
 \<and> (''hasOwnProperty'' \<notin> set (map fst ks) \<longrightarrow>
        state (loadGameState (m0\<lparr>localStorage := Parsed (sn\<lparr>otherKeys := ks\<rparr>)\<rparr>))
          = state (loadGameState (m0\<lparr>localStorage := Parsed (sn\<lparr>otherKeys := []\<rparr>)\<rparr>))
      \<and> currentLevelIndex (loadGameState (m0\<lparr>localStorage := Parsed (sn\<lparr>otherKeys := ks\<rparr>)\<rparr>))
          = currentLevelIndex (loadGameState (m0\<lparr>localStorage := Parsed (sn\<lparr>otherKeys := []\<rparr>)\<rparr>)))
 \<and> (localStorage m0 = NoItem \<or> localStorage m0 = Unreadable \<longrightarrow>
        loadGameState m0
          = m0\<lparr>currentLevelIndex := Finite 0, state := (state m0)\<lparr>level := VNumber (Finite 1)\<rparr>\<rparr>)
 \<and> (item = NoItem \<or> item = Unreadable \<longrightarrow>
        state (loadGameState (startModel item w)) = defaultState
      \<and> currentLevelIndex (loadGameState (startModel item w)) = Finite 0)
 \<and> (localStorage m0 = Parsed sn \<and> ''hasOwnProperty'' \<notin> set (map fst (otherKeys sn))
      \<and> savedLevel sn = Some v
      \<and> (numBelow (addNum (toNumber v) (- 1)) 0
          \<or> numAtLeast (addNum (toNumber v) (- 1)) (of_nat (length levels))) \<longrightarrow>
        level (state (loadGameState m0)) = VNumber (Finite 1)
      \<and> currentLevelIndex (loadGameState m0) = Finite 0
      \<and> score (state (loadGameState m0))
          = (case savedScore sn of None \<Rightarrow> score (state m0) | Some x \<Rightarrow> x)
      \<and> uptime (state (loadGameState m0))
          = (case savedUptime sn of None \<Rightarrow> uptime (state m0) | Some x \<Rightarrow> x)
      \<and> rules (state (loadGameState m0))
          = (case savedRules sn of None \<Rightarrow> rules (state m0) | Some x \<Rightarrow> x)
      \<and> levelProgress (state (loadGameState m0))
          = (case savedLevelProgress sn of None \<Rightarrow> levelProgress (state m0) | Some x \<Rightarrow> x))"
proof -
  have roundtrip: "level (state (loadGameState m0)) = level (state m)
      \<and> score (state (loadGameState m0)) = score (state m)
      \<and> uptime (state (loadGameState m0)) = uptime (state m)
      \<and> rules (state (loadGameState m0)) = rules (state m)
      \<and> levelProgress (state (loadGameState m0)) = levelProgress (state m)
      \<and> currentLevelIndex (loadGameState m0) = Finite (of_int k - 1)
      \<and> events (state (loadGameState m0)) = events (state m0)
      \<and> pendingMaliciousEvents (state (loadGameState m0)) = pendingMaliciousEvents (state m0)
      \<and> trafficData (state (loadGameState m0)) = trafficData (state m0)
      \<and> isRunning (state (loadGameState m0)) = isRunning (state m0)"
    if a: "storageWritable m \<and> level (state m) = VNumber (Finite (of_int k))
      \<and> 1 \<le> k \<and> k \<le> int (length levels)
      \<and> localStorage m0 = localStorage (saveGameState m)"
  proof -
    from a have st: "localStorage m0 = Parsed (snapshotOf (state m))"
      by (simp add: saveGameState_def)
    have lv: "level (copyValid (snapshotOf (state m)) (state m0)) = VNumber (Finite (of_int k))"
      using a by (simp add: copyValid_def snapshotOf_def)
    from a have rng: "\<not> (numBelow (Finite (of_int k - 1)) 0
        \<or> numAtLeast (Finite (of_int k - 1)) (of_nat (length levels)))"
      by simp
    have ok: "otherKeys (snapshotOf (state m)) = []" by (simp add: snapshotOf_def)
    have ld: "loadGameState m0 = m0\<lparr>currentLevelIndex := Finite (of_int k - 1),
                state := copyValid (snapshotOf (state m)) (state m0)\<rparr>"
      unfolding loadGameState_def st using rng by (simp add: Let_def lv ok)
    show ?thesis unfolding ld using a by (simp add: copyValid_def snapshotOf_def)
  qed
  have other: "state (loadGameState (m0\<lparr>localStorage := Parsed (sn\<lparr>otherKeys := ks\<rparr>)\<rparr>))
          = state (loadGameState (m0\<lparr>localStorage := Parsed (sn\<lparr>otherKeys := []\<rparr>)\<rparr>))
      \<and> currentLevelIndex (loadGameState (m0\<lparr>localStorage := Parsed (sn\<lparr>otherKeys := ks\<rparr>)\<rparr>))
          = currentLevelIndex (loadGameState (m0\<lparr>localStorage := Parsed (sn\<lparr>otherKeys := []\<rparr>)\<rparr>))"
    if "''hasOwnProperty'' \<notin> set (map fst ks)"
    using that by (simp add: loadGameState_def copyValid_def Let_def)
  have absent: "loadGameState m0
          = m0\<lparr>currentLevelIndex := Finite 0, state := (state m0)\<lparr>level := VNumber (Finite 1)\<rparr>\<rparr>"
    if "localStorage m0 = NoItem \<or> localStorage m0 = Unreadable"
    using that by (auto simp: loadGameState_def fallBackToFirstLevel_def)
  have fresh: "state (loadGameState (startModel item w)) = defaultState
      \<and> currentLevelIndex (loadGameState (startModel item w)) = Finite 0"
    if "item = NoItem \<or> item = Unreadable"
    using that by (auto simp: loadGameState_def fallBackToFirstLevel_def startModel_def defaultState_def)
  have range: "level (state (loadGameState m0)) = VNumber (Finite 1)
      \<and> currentLevelIndex (loadGameState m0) = Finite 0
      \<and> score (state (loadGameState m0))
          = (case savedScore sn of None \<Rightarrow> score (state m0) | Some x \<Rightarrow> x)
      \<and> uptime (state (loadGameState m0))
          = (case savedUptime sn of None \<Rightarrow> uptime (state m0) | Some x \<Rightarrow> x)
      \<and> rules (state (loadGameState m0))
          = (case savedRules sn of None \<Rightarrow> rules (state m0) | Some x \<Rightarrow> x)
      \<and> levelProgress (state (loadGameState m0))
          = (case savedLevelProgress sn of None \<Rightarrow> levelProgress (state m0) | Some x \<Rightarrow> x)"
    if a: "localStorage m0 = Parsed sn \<and> ''hasOwnProperty'' \<notin> set (map fst (otherKeys sn))
      \<and> savedLevel sn = Some v
      \<and> (numBelow (addNum (toNumber v) (- 1)) 0
          \<or> numAtLeast (addNum (toNumber v) (- 1)) (of_nat (length levels)))"
  proof -
    from a have lv: "level (copyValid sn (state m0)) = v" by (simp add: copyValid_def)
    from a have ld: "loadGameState m0
        = m0\<lparr>currentLevelIndex := Finite 0,
             state := (copyValid sn (state m0))\<lparr>level := VNumber (Finite 1)\<rparr>\<rparr>"
      unfolding loadGameState_def by (simp add: Let_def lv)
    show ?thesis unfolding ld by (simp add: copyValid_def)
  qed
  from roundtrip other absent fresh range show ?thesis by blast
qed

theorem persistence_roundtrip_witness:
  "state (loadGameState (startModel (localStorage (saveGameState midSession)) True))
     = defaultState
         \<lparr>level := VNumber (Finite 2), score := 1234, uptime := 175/2,
          rules := [blankRule\<lparr>conditionType := Some ''login_fail'', threshold := JString ''5''\<rparr>]\<rparr>
 \<and> state (loadGameState ((startModel NoItem True)
             \<lparr>localStorage := Parsed ((snapshotOf (state midSession))
                                        \<lparr>otherKeys := [(''isRunning'', VBool True)]\<rparr>)\<rparr>))
     = state (loadGameState ((startModel NoItem True)
             \<lparr>localStorage := Parsed ((snapshotOf (state midSession))\<lparr>otherKeys := []\<rparr>)\<rparr>))
 \<and> loadGameState (startModel Unreadable True) = startModel Unreadable True
 \<and> state (loadGameState (startModel NoItem False)) = defaultState
 \<and> level (state (loadGameState (startModel
        (Parsed ((snapshotOf (state midSession))\<lparr>savedLevel := Some (VNumber (Finite 7))\<rparr>)) True)))
     = VNumber (Finite 1)
 \<and> score (state (loadGameState (startModel
        (Parsed ((snapshotOf (state midSession))\<lparr>savedLevel := Some (VNumber (Finite 7))\<rparr>)) True)))
     = 1234"
proof -
  let ?fresh = "startModel (localStorage (saveGameState midSession)) True"
  let ?seven = "(snapshotOf (state midSession))\<lparr>savedLevel := Some (VNumber (Finite 7))\<rparr>"
  note inst1 = persistence_roundtrip [where m = midSession and ?m0.0 = ?fresh and k = 2
      and sn = "snapshotOf (state midSession)" and ks = "[(''isRunning'', VBool True)]"
      and item = NoItem and w = False and v = "VNumber (Finite 7)"]
  note inst2 = persistence_roundtrip [where m = midSession
      and ?m0.0 = "startModel NoItem True" and k = 2
      and sn = "snapshotOf (state midSession)" and ks = "[(''isRunning'', VBool True)]"
      and item = NoItem and w = False and v = "VNumber (Finite 7)"]
  note inst3 = persistence_roundtrip [where m = midSession
      and ?m0.0 = "startModel Unreadable True" and k = 2
      and sn = "snapshotOf (state midSession)" and ks = "[]"
      and item = NoItem and w = False and v = "VNumber (Finite 7)"]
  note inst4 = persistence_roundtrip [where m = midSession
      and ?m0.0 = "startModel (Parsed ?seven) True" and k = 2
      and sn = ?seven and ks = "[]"
      and item = NoItem and w = False and v = "VNumber (Finite 7)"]
  have pre: "storageWritable midSession \<and> level (state midSession) = VNumber (Finite (of_int 2))
      \<and> (1::int) \<le> 2 \<and> 2 \<le> int (length levels)
      \<and> localStorage ?fresh = localStorage (saveGameState midSession)"
    by (simp add: midSession_def startModel_def levels_def)
  from inst1 pre have rt: "level (state (loadGameState ?fresh)) = level (state midSession)
      \<and> score (state (loadGameState ?fresh)) = score (state midSession)
      \<and> uptime (state (loadGameState ?fresh)) = uptime (state midSession)
      \<and> rules (state (loadGameState ?fresh)) = rules (state midSession)
      \<and> levelProgress (state (loadGameState ?fresh)) = levelProgress (state midSession)
      \<and> events (state (loadGameState ?fresh)) = events (state ?fresh)
      \<and> pendingMaliciousEvents (state (loadGameState ?fresh)) = pendingMaliciousEvents (state ?fresh)
      \<and> trafficData (state (loadGameState ?fresh)) = trafficData (state ?fresh)
      \<and> isRunning (state (loadGameState ?fresh)) = isRunning (state ?fresh)"
    by blast
  have a: "state (loadGameState ?fresh)
     = defaultState
         \<lparr>level := VNumber (Finite 2), score := 1234, uptime := 175/2,
          rules := [blankRule\<lparr>conditionType := Some ''login_fail'', threshold := JString ''5''\<rparr>]\<rparr>"
    using rt by (cases "state (loadGameState ?fresh)")
      (simp add: midSession_def startModel_def defaultState_def)
  have nk: "''hasOwnProperty'' \<notin> set (map fst [(''isRunning'', VBool True)])" by simp
  from inst2 nk have b: "state (loadGameState ((startModel NoItem True)
             \<lparr>localStorage := Parsed ((snapshotOf (state midSession))
                                        \<lparr>otherKeys := [(''isRunning'', VBool True)]\<rparr>)\<rparr>))
     = state (loadGameState ((startModel NoItem True)
             \<lparr>localStorage := Parsed ((snapshotOf (state midSession))\<lparr>otherKeys := []\<rparr>)\<rparr>))"
    by blast
  have un: "localStorage (startModel Unreadable True) = Unreadable" by (simp add: startModel_def)
  from inst3 un have "loadGameState (startModel Unreadable True)
      = (startModel Unreadable True)\<lparr>currentLevelIndex := Finite 0,
           state := (state (startModel Unreadable True))\<lparr>level := VNumber (Finite 1)\<rparr>\<rparr>"
    by blast
  then have c: "loadGameState (startModel Unreadable True) = startModel Unreadable True"
    by (simp add: startModel_def defaultState_def)
  from inst1 have d: "state (loadGameState (startModel NoItem False)) = defaultState" by blast
  have p7: "localStorage (startModel (Parsed ?seven) True) = Parsed ?seven
      \<and> ''hasOwnProperty'' \<notin> set (map fst (otherKeys ?seven))
      \<and> savedLevel ?seven = Some (VNumber (Finite 7))
      \<and> (numBelow (addNum (toNumber (VNumber (Finite 7))) (- 1)) 0
          \<or> numAtLeast (addNum (toNumber (VNumber (Finite 7))) (- 1)) (of_nat (length levels)))"
    by (simp add: startModel_def snapshotOf_def levels_def)
  from inst4 p7 have e7: "level (state (loadGameState (startModel (Parsed ?seven) True))) = VNumber (Finite 1)
      \<and> score (state (loadGameState (startModel (Parsed ?seven) True)))
          = (case savedScore ?seven of None \<Rightarrow> score (state (startModel (Parsed ?seven) True))
             | Some x \<Rightarrow> x)"
    by blast
  then have e: "level (state (loadGameState (startModel (Parsed ?seven) True))) = VNumber (Finite 1)
      \<and> score (state (loadGameState (startModel (Parsed ?seven) True))) = 1234"
    by (simp add: snapshotOf_def midSession_def)
  from a b c d e show ?thesis by blast
qed

theorem persistence_fallback_counterexample:
  "state (loadGameState (startModel
      (Parsed ((snapshotOf (state midSession))\<lparr>savedLevel := Some (VNumber (Finite 7))\<rparr>)) True))
     = defaultState
         \<lparr>score := 1234, uptime := 175/2,
          rules := [blankRule\<lparr>conditionType := Some ''login_fail'', threshold := JString ''5''\<rparr>]\<rparr>
 \<and> state (loadGameState (startModel
      (Parsed ((snapshotOf (state midSession))\<lparr>savedLevel := Some (VNumber (Finite 7))\<rparr>)) True))
     \<noteq> defaultState
 \<and> score (state (loadGameState (startModel
      (Parsed ((snapshotOf (state midSession))\<lparr>otherKeys := []\<rparr>)) True))) = 1234
 \<and> score (state (loadGameState (startModel
      (Parsed ((snapshotOf (state midSession))\<lparr>otherKeys := [(''hasOwnProperty'', VBool True)]\<rparr>))
      True))) = 0
 \<and> boot (Parsed ((snapshotOf (state midSession))\<lparr>savedLevel := Some (VNumber (Finite (5/2)))\<rparr>))
      True = None"
  by (simp add: boot_def init_def loadGameState_def fallBackToFirstLevel_def
        applyLevelSettings_def getCurrentLevel_def startModel_def snapshotOf_def copyValid_def
        defaultState_def midSession_def levels_def Let_def floor_numeral_div_rat)

section \<open>Weighted template choice\<close>

text \<open>
  Claim C9, as the code has it. The weight of a template is its likelihood times a scaling
  factor: for a noise template the level's noise probability, or 1 when that probability
  is zero; otherwise the level's frequency multiplier times the template's declared scaling
  frequency when one is declared and non-zero, and the frequency multiplier alone
  otherwise. With the draw \<open>rnd * totalWeight\<close>, which lies in \<open>[0, totalWeight)\<close>,
  the result is the first template whose running weight reaches the draw, and the first
  template of the catalog when no running weight does.
\<close>

theorem chooseEventTemplate_weighted:
  fixes catalog :: "template list" and levelSettings :: levelDef and rnd :: rat
  defines "weight \<equiv> templateWeight levelSettings"
  defines "totalWeight \<equiv> sum_list (map weight catalog)"
  defines "running \<equiv> \<lambda>i. sum_list (map weight (take (Suc i) catalog))"
  shows
   "(\<forall>t. weight t
        = likelihood t
          * (if templateIsNoise t
             then (if noiseEventProbability levelSettings \<noteq> 0
                   then noiseEventProbability levelSettings else 1)
             else (case level_scaling t of
                     Some (Some f) \<Rightarrow>
                       if f \<noteq> 0 then eventFrequencyMultiplier levelSettings * f
                       else eventFrequencyMultiplier levelSettings
                   | _ \<Rightarrow> eventFrequencyMultiplier levelSettings)))
  \<and> (0 \<le> rnd \<and> rnd < 1 \<and> 0 < totalWeight \<longrightarrow> 0 \<le> rnd * totalWeight \<and> rnd * totalWeight < totalWeight)
  \<and> (\<forall>i<length catalog.
        rnd * totalWeight \<le> running i \<and> (\<forall>j<i. running j < rnd * totalWeight) \<longrightarrow>
        chooseEventTemplate catalog levelSettings rnd = Some (catalog ! i))
  \<and> ((\<forall>i<length catalog. running i < rnd * totalWeight) \<longrightarrow>
        chooseEventTemplate catalog levelSettings rnd
          = (case catalog of [] \<Rightarrow> None | t # _ \<Rightarrow> Some t))"
proof -
  have w: "\<forall>t. weight t
        = likelihood t
          * (if templateIsNoise t
             then (if noiseEventProbability levelSettings \<noteq> 0
                   then noiseEventProbability levelSettings else 1)
             else (case level_scaling t of
                     Some (Some f) \<Rightarrow>
                       if f \<noteq> 0 then eventFrequencyMultiplier levelSettings * f
                       else eventFrequencyMultiplier levelSettings
                   | _ \<Rightarrow> eventFrequencyMultiplier levelSettings))"
    by (simp add: weight_def templateWeight_def split: option.splits)
  have draw: "0 \<le> rnd \<and> rnd < 1 \<and> 0 < totalWeight \<longrightarrow> 0 \<le> rnd * totalWeight \<and> rnd * totalWeight < totalWeight"
    by auto
  have unfold: "chooseEventTemplate catalog levelSettings rnd
      = (case walk (rnd * totalWeight) 0 (map (\<lambda>t. (t, weight t)) catalog) of
           Some t \<Rightarrow> Some t
         | None \<Rightarrow> (case catalog of [] \<Rightarrow> None | t # _ \<Rightarrow> Some t))"
    by (simp add: chooseEventTemplate_def Let_def foldl_weights weight_def totalWeight_def)
  have hit: "\<forall>i<length catalog.
        rnd * totalWeight \<le> running i \<and> (\<forall>j<i. running j < rnd * totalWeight) \<longrightarrow>
        chooseEventTemplate catalog levelSettings rnd = Some (catalog ! i)"
  proof (intro allI impI)
    fix i assume i: "i < length catalog"
      and h: "rnd * totalWeight \<le> running i \<and> (\<forall>j<i. running j < rnd * totalWeight)"
    have "walk (rnd * totalWeight) 0 (map (\<lambda>t. (t, weight t)) catalog) = Some (catalog ! i)"
      using i h by (intro walk_hit) (simp_all add: running_def)
    then show "chooseEventTemplate catalog levelSettings rnd = Some (catalog ! i)"
      by (simp add: unfold)
  qed
  have miss: "(\<forall>i<length catalog. running i < rnd * totalWeight) \<longrightarrow>
        chooseEventTemplate catalog levelSettings rnd
          = (case catalog of [] \<Rightarrow> None | t # _ \<Rightarrow> Some t)"
  proof
    assume h: "\<forall>i<length catalog. running i < rnd * totalWeight"
    have "walk (rnd * totalWeight) 0 (map (\<lambda>t. (t, weight t)) catalog) = None"
      using h by (intro walk_miss) (simp add: running_def)
    then show "chooseEventTemplate catalog levelSettings rnd
          = (case catalog of [] \<Rightarrow> None | t # _ \<Rightarrow> Some t)"
      by (simp add: unfold)
  qed
  from w draw hit miss show ?thesis by blast
qed

theorem chooseEventTemplate_weighted_witness:
  "chooseEventTemplate
     [mkTemplate ''login_fail'' ''malicious'' (6/100) 3 False,
      mkTemplate ''normal_activity'' ''noise'' (3/10) 1 True]
     (levels ! 0) (3/4)
    = Some (mkTemplate ''normal_activity'' ''noise'' (3/10) 1 True)
 \<and> chooseEventTemplate [] (levels ! 0) (3/4) = None"
proof -
  let ?a = "mkTemplate ''login_fail'' ''malicious'' (6/100) 3 False"
  let ?n = "mkTemplate ''normal_activity'' ''noise'' (3/10) 1 True"
  have hit: "(3/4) * sum_list (map (templateWeight (levels ! 0)) [?a, ?n])
        \<le> sum_list (map (templateWeight (levels ! 0)) (take (Suc 1) [?a, ?n]))
     \<and> (\<forall>j<1. sum_list (map (templateWeight (levels ! 0)) (take (Suc j) [?a, ?n]))
              < (3/4) * sum_list (map (templateWeight (levels ! 0)) [?a, ?n]))"
    by (simp add: templateWeight_def mkTemplate_def levels_def)
  have one: "(1::nat) < length [?a, ?n]" by simp
  from chooseEventTemplate_weighted
      [where catalog = "[?a, ?n]" and levelSettings = "levels ! 0" and rnd = "3/4"] one hit
  have first: "chooseEventTemplate [?a, ?n] (levels ! 0) (3/4) = Some ([?a, ?n] ! 1)"
    by blast
  from chooseEventTemplate_weighted
      [where catalog = "[]" and levelSettings = "levels ! 0" and rnd = "3/4"]
  have second: "chooseEventTemplate [] (levels ! 0) (3/4) = None" by simp
  from first second show ?thesis by simp
qed

theorem chooseTemplate_zero_noise_counterexample:
  "templateWeight ((levels ! 0)\<lparr>noiseEventProbability := 0\<rparr>)
     (mkTemplate ''normal_activity'' ''noise'' (3/10) 1 True) = 3/10
 \<and> specifiedWeight ((levels ! 0)\<lparr>noiseEventProbability := 0\<rparr>)
     (mkTemplate ''normal_activity'' ''noise'' (3/10) 1 True) = 0
 \<and> chooseEventTemplate
       [mkTemplate ''normal_activity'' ''noise'' (3/10) 1 True,
        mkTemplate ''login_fail'' ''malicious'' (6/100) 3 False]
       ((levels ! 0)\<lparr>noiseEventProbability := 0\<rparr>) (1/2)
     = Some (mkTemplate ''normal_activity'' ''noise'' (3/10) 1 True)
 \<and> specifiedChoice
       [mkTemplate ''normal_activity'' ''noise'' (3/10) 1 True,
        mkTemplate ''login_fail'' ''malicious'' (6/100) 3 False]
       ((levels ! 0)\<lparr>noiseEventProbability := 0\<rparr>) (1/2)
     = Some (mkTemplate ''login_fail'' ''malicious'' (6/100) 3 False)"
  by (simp add: templateWeight_def specifiedWeight_def chooseEventTemplate_def
        specifiedChoice_def mkTemplate_def levels_def Let_def)

section \<open>Escalation impact\<close>

text \<open>
  What the escalation controller does with an escalated event when it is called: the
  penalty is severity * 2, times 3/2 for \<open>traffic_spike\<close> and times 2 for
  \<open>service_failure\<close>; the uptime becomes the old uptime less the penalty, clamped at 0;
  \<open>uptime:updated\<close> is published once per event; a \<open>traffic_spike\<close> is never a data
  breach, \<open>unauthorized_access\<close> and \<open>sql_injection\<close> always are, with twice the
  financial impact; \<open>game:over\<close> is published when the uptime has reached 0.
\<close>

lemma applyEscalationImpact_effect:
  fixes e :: event and m :: gameModel
  defines "dmg \<equiv> calculateSimulatedDamage e"
  defines "m' \<equiv> applyEscalationImpact e m"
  shows
   "uptimeImpact dmg
      = severity e * 2 * (if type e = Some ''traffic_spike'' then 3/2
                          else if type e = Some ''service_failure'' then 2 else 1)
  \<and> uptime (state m') = max 0 (uptime (state m) - uptimeImpact dmg)
  \<and> length (filter isUptimeUpdated (newPublications m m')) = 1
  \<and> (type e = Some ''traffic_spike'' \<longrightarrow> \<not> dataBreach dmg)
  \<and> (type e = Some ''unauthorized_access'' \<or> type e = Some ''sql_injection'' \<longrightarrow>
        dataBreach dmg \<and> financialImpact dmg = 2 * (severity e * 1000))
  \<and> (uptime (state m') \<le> 0 \<longrightarrow> GameOver ''network_down'' e \<in> set (newPublications m m'))
  \<and> (uptime (state m') > 0 \<longrightarrow> \<not> list_ex isGameOver (newPublications m m'))
  \<and> length (filter isUptimeUpdated (published (handleEscalatedEvents es m)))
      = length (filter isUptimeUpdated (published m)) + length es"
proof -
  have each: "length (filter isUptimeUpdated (published (handleEscalatedEvents es m)))
      = length (filter isUptimeUpdated (published m)) + length es"
    by (rule handleEscalatedEvents_updates)
  have imp: "uptimeImpact dmg
      = severity e * 2 * (if type e = Some ''traffic_spike'' then 3/2
                          else if type e = Some ''service_failure'' then 2 else 1)"
    by (simp add: dmg_def calculateSimulatedDamage_def Let_def)
  have up: "uptime (state m') = max 0 (uptime (state m) - uptimeImpact dmg)"
    unfolding m'_def dmg_def by (rule applyEscalationImpact_uptime)
  have new: "newPublications m m'
     = [UptimeUpdated (max 0 (uptime (state m) - uptimeImpact dmg)) (type e)]
       @ (if max 0 (uptime (state m) - uptimeImpact dmg) \<le> 0
          then [GameOver ''network_down'' e] else [])
       @ (if storageWritable m then []
          else [NotificationError ''Failed to save game state. Storage may be full or disabled.''])"
    unfolding m'_def dmg_def
    by (rule newPublications_append) (simp add: applyEscalationImpact_published)
  have once: "length (filter isUptimeUpdated (newPublications m m')) = 1"
    unfolding new by simp
  have spike: "type e = Some ''traffic_spike'' \<longrightarrow> \<not> dataBreach dmg"
    by (simp add: dmg_def calculateSimulatedDamage_def Let_def)
  have breach: "type e = Some ''unauthorized_access'' \<or> type e = Some ''sql_injection'' \<longrightarrow>
        dataBreach dmg \<and> financialImpact dmg = 2 * (severity e * 1000)"
    by (auto simp: dmg_def calculateSimulatedDamage_def Let_def)
  have over: "uptime (state m') \<le> 0 \<longrightarrow> GameOver ''network_down'' e \<in> set (newPublications m m')"
    unfolding new up by simp
  have alive: "uptime (state m') > 0 \<longrightarrow> \<not> list_ex isGameOver (newPublications m m')"
    unfolding new up by (simp add: not_le[symmetric] del: not_le)
  from imp up once spike breach over alive each show ?thesis by blast
qed


text \<open>
  Claim C10. Every escalated event should get its uptime penalty and one
  \<open>uptime:updated\<close>. The controller is only called through its subscription to
  \<open>events:escalated\<close>, and a game reset clears the bus and subscribes the game
  controller's own handlers again, not this one. Below, a \<open>service_failure\<close> of severity
  8 is added at instant 0 and swept at 45000. In a fresh session the uptime falls from 100
  to 68 with one \<open>uptime:updated\<close>; after a game reset the same event escalates,
  \<open>events:escalated\<close> is published, and the uptime stays at 100 with no
  \<open>uptime:updated\<close>.
\<close>

theorem escalation_after_reset:
  "map_option
     (\<lambda>x. (uptime (state x), length (filter isUptimeUpdated (published x)),
           EventsEscalated [maliciousEvent ''service_failure'' ''10:00:00'' 8] \<in> set (published x)))
     (Option.bind (boot NoItem True)
        (run [Tick (maliciousEvent ''service_failure'' ''10:00:00'' 8) 0 0, Sweep 45000]))
    = Some (68, 1, True)
 \<and> map_option
     (\<lambda>x. (uptime (state x), length (filter isUptimeUpdated (published x)),
           EventsEscalated [maliciousEvent ''service_failure'' ''10:00:00'' 8] \<in> set (published x)))
     (Option.bind (boot NoItem True)
        (run [ResetGame, Tick (maliciousEvent ''service_failure'' ''10:00:00'' 8) 0 0,
              Sweep 45000]))
    = Some (100, 0, True)"
  by (simp add: boot_fresh)
     (simp add: bootedModel_def checkEscalations_def handleEscalatedEvents_def
        applyEscalationImpact_def calculateSimulatedDamage_def eval_defs)

text \<open>
  No handler is subscribed to \<open>game:over\<close>: after it the simulation goes on, and a further
  escalation at uptime 0 publishes it again.
\<close>

lemma game_over_is_published_again:
  "map_option (\<lambda>x. (uptime (state x), length (filter isGameOver (published x))))
     (run [Sweep 45000, Tick (maliciousEvent ''service_failure'' ''10:01:00'' 8) 50000 50000,
           Sweep 100000]
        (addEvent (maliciousEvent ''service_failure'' ''10:00:00'' 8) 0
           (bootedModel\<lparr>state := defaultState\<lparr>uptime := 30\<rparr>\<rparr>)))
    = Some (0, 2)"
  by (simp add: bootedModel_def checkEscalations_def handleEscalatedEvents_def
        applyEscalationImpact_def calculateSimulatedDamage_def eval_defs)

end
